theory Spec2Isabelle
  imports Complex_Main
begin

section \<open>Numbers, clock and constants\<close>

text \<open>
  The TypeScript sources compute with the type \<open>number\<close>, a double-precision float.
  The embedding reads it in two ways.

  Where the values are time stamps, durations, accuracies and scores of ordinary size,
  a \<open>number\<close> is a real and every arithmetic operation is the exact one; the rounding
  of a result to the nearest double is outside the model. Where the source divides by a
  quantity that can be zero on ordinary inputs (\<open>calculateVariance\<close>), the division is
  written out with an \<open>option\<close> result, \<open>None\<close> standing for "not a finite number".

  Where a special value decides the outcome, the type \<open>number\<close> below is used: a finite
  value, plus or minus Infinity, or NaN, with the arithmetic of IEEE 754 on the special
  values, overflow to an infinity, and the underflow of \<open>Math.exp\<close> and \<open>Math.pow\<close>
  to zero. This is the case for the weights of \<open>calculateConfidence\<close>, for
  \<open>exponentialDecay\<close> and for the priority that the scheduler computes from inputs
  nothing validates.

  \<open>Date.now()\<close> is an argument \<open>now\<close> of every operation that reads the clock;
  an operation that reads the clock several times gets the same reading each time.
  Identifiers that the source builds from the clock, \<open>Math.random()\<close> or a digest
  are arguments as well.
\<close>

definition MS_PER_HOUR :: real where
  "MS_PER_HOUR = 3600000"

definition MS_PER_DAY :: real where
  "MS_PER_DAY = 86400000"

text \<open>\<open>Math.round\<close>: the nearest integer, a half rounded towards plus infinity.\<close>

definition Math_round :: "real \<Rightarrow> int" where
  "Math_round x = \<lfloor>x + 1 / 2\<rfloor>"

text \<open>A quotient of the source whose divisor may be zero.\<close>

definition js_div :: "real \<Rightarrow> real \<Rightarrow> real option" where
  "js_div a b = (if b = 0 then None else Some (a / b))"

subsection \<open>Numbers with the special values\<close>

text \<open>
  A \<open>number\<close> with its special values. \<open>Fin r\<close> is the finite double \<open>r\<close>; a
  finite double has a magnitude below \<open>2 ^ 1024\<close>, and the result of an operation on
  finite values that reaches this magnitude is an infinity (\<open>num_norm\<close>). The rounding
  of a finite result and the sign of a zero are not modelled; a zero divisor counts as
  \<open>+0\<close>.
\<close>

datatype number = Fin real | PInf | NInf | NaN

definition overflow_bound :: real where
  "overflow_bound = 2 ^ 1024"

definition num_norm :: "real \<Rightarrow> number" where
  "num_norm r =
     (if overflow_bound \<le> r then PInf else if r \<le> - overflow_bound then NInf else Fin r)"

text \<open>The infinity with the sign of \<open>s\<close>; NaN for \<open>s = 0\<close> (as in \<open>Infinity * 0\<close>).\<close>

definition inf_of_sign :: "real \<Rightarrow> number" where
  "inf_of_sign s = (if s = 0 then NaN else if 0 < s then PInf else NInf)"

fun num_neg :: "number \<Rightarrow> number" where
  "num_neg (Fin a) = Fin (- a)"
| "num_neg PInf = NInf"
| "num_neg NInf = PInf"
| "num_neg NaN = NaN"

fun num_add :: "number \<Rightarrow> number \<Rightarrow> number" where
  "num_add (Fin a) (Fin b) = num_norm (a + b)"
| "num_add (Fin a) PInf = PInf"
| "num_add (Fin a) NInf = NInf"
| "num_add PInf (Fin b) = PInf"
| "num_add NInf (Fin b) = NInf"
| "num_add PInf PInf = PInf"
| "num_add NInf NInf = NInf"
| "num_add PInf NInf = NaN"
| "num_add NInf PInf = NaN"
| "num_add NaN b = NaN"
| "num_add a NaN = NaN"

definition num_sub :: "number \<Rightarrow> number \<Rightarrow> number" where
  "num_sub a b = num_add a (num_neg b)"

fun num_mul :: "number \<Rightarrow> number \<Rightarrow> number" where
  "num_mul (Fin a) (Fin b) = num_norm (a * b)"
| "num_mul (Fin a) PInf = inf_of_sign a"
| "num_mul (Fin a) NInf = inf_of_sign (- a)"
| "num_mul PInf (Fin b) = inf_of_sign b"
| "num_mul NInf (Fin b) = inf_of_sign (- b)"
| "num_mul PInf PInf = PInf"
| "num_mul NInf NInf = PInf"
| "num_mul PInf NInf = NInf"
| "num_mul NInf PInf = NInf"
| "num_mul NaN b = NaN"
| "num_mul a NaN = NaN"

fun num_div :: "number \<Rightarrow> number \<Rightarrow> number" where
  "num_div (Fin a) (Fin b) = (if b = 0 then inf_of_sign a else num_norm (a / b))"
| "num_div (Fin a) PInf = Fin 0"
| "num_div (Fin a) NInf = Fin 0"
| "num_div PInf (Fin b) = (if 0 \<le> b then PInf else NInf)"
| "num_div NInf (Fin b) = (if 0 \<le> b then NInf else PInf)"
| "num_div PInf PInf = NaN"
| "num_div NInf NInf = NaN"
| "num_div PInf NInf = NaN"
| "num_div NInf PInf = NaN"
| "num_div NaN b = NaN"
| "num_div a NaN = NaN"

text \<open>The comparisons \<open><\<close> and \<open><=\<close>: false as soon as an operand is NaN.\<close>

fun num_lt :: "number \<Rightarrow> number \<Rightarrow> bool" where
  "num_lt (Fin a) (Fin b) = (a < b)"
| "num_lt (Fin a) PInf = True"
| "num_lt NInf (Fin b) = True"
| "num_lt NInf PInf = True"
| "num_lt a b = False"

fun num_le :: "number \<Rightarrow> number \<Rightarrow> bool" where
  "num_le (Fin a) (Fin b) = (a \<le> b)"
| "num_le (Fin a) PInf = True"
| "num_le NInf (Fin b) = True"
| "num_le NInf PInf = True"
| "num_le PInf PInf = True"
| "num_le NInf NInf = True"
| "num_le a b = False"

text \<open>\<open>Math.min\<close> and \<open>Math.max\<close> of two arguments: NaN as soon as an argument is NaN.\<close>

fun Math_min :: "number \<Rightarrow> number \<Rightarrow> number" where
  "Math_min NaN b = NaN"
| "Math_min a NaN = NaN"
| "Math_min NInf b = NInf"
| "Math_min a NInf = NInf"
| "Math_min PInf b = b"
| "Math_min a PInf = a"
| "Math_min (Fin a) (Fin b) = Fin (min a b)"

fun Math_max :: "number \<Rightarrow> number \<Rightarrow> number" where
  "Math_max NaN b = NaN"
| "Math_max a NaN = NaN"
| "Math_max PInf b = PInf"
| "Math_max a PInf = PInf"
| "Math_max NInf b = b"
| "Math_max a NInf = a"
| "Math_max (Fin a) (Fin b) = Fin (max a b)"

text \<open>\<open>Math.round\<close> on a \<open>number\<close>: the special values are returned as they are.\<close>

fun Math_round_num :: "number \<Rightarrow> number" where
  "Math_round_num (Fin r) = Fin (real_of_int (Math_round r))"
| "Math_round_num PInf = PInf"
| "Math_round_num NInf = NInf"
| "Math_round_num NaN = NaN"

text \<open>
  \<open>Math.exp\<close>. The smallest positive double is \<open>2 ^ -1074\<close>: the result is 0 when
  the exact value is at most \<open>2 ^ -1075\<close>, that is for an argument of at most
  \<open>-1075 ln 2\<close> (about -745.13), and Infinity when the exact value reaches
  \<open>2 ^ 1024\<close>.
\<close>

fun Math_exp :: "number \<Rightarrow> number" where
  "Math_exp (Fin x) =
     (if x \<le> - (1075 * ln 2) then Fin 0 else if 1024 * ln 2 \<le> x then PInf else Fin (exp x))"
| "Math_exp PInf = PInf"
| "Math_exp NInf = Fin 0"
| "Math_exp NaN = NaN"

text \<open>
  \<open>Math.pow(0.5, x)\<close> for a real exponent, with the two ends of its range written out:
  the result is exactly 0 once the exact value \<open>2 ^ -x\<close> is at most \<open>2 ^ -1075\<close>, and
  exactly 1 for an exponent between 0 and \<open>2 ^ -54\<close>, where the exact value is nearer
  to 1 than to the next double below 1. In between it is the real power. An exponent
  below -1024, for which the source yields Infinity, is outside this model.
\<close>

definition Math_pow_half :: "real \<Rightarrow> real" where
  "Math_pow_half x =
     (if 1075 \<le> x then 0
      else if 0 \<le> x \<and> x \<le> 1 / 2 ^ 54 then 1
      else (1 / 2) powr x)"

text \<open>
  The value of a variable of type \<open>number | undefined\<close> where the source computes with
  it: \<open>undefined\<close> (here \<open>None\<close>) converts to NaN. The test \<open>if (v)\<close> is false for
  \<open>undefined\<close>, 0 and NaN.
\<close>

definition to_number :: "number option \<Rightarrow> number" where
  "to_number v = (case v of None \<Rightarrow> NaN | Some n \<Rightarrow> n)"

definition truthy :: "number option \<Rightarrow> bool" where
  "truthy v = (case v of None \<Rightarrow> False | Some (Fin r) \<Rightarrow> r \<noteq> 0 | Some NaN \<Rightarrow> False | Some _ \<Rightarrow> True)"

section \<open>Data model (types.ts)\<close>

datatype TaskCategory =
  research | coding | writing | analysis | communication | scheduling
  | file_operations | web_browsing | other

datatype TaskComplexity = trivial | simple | moderate | complex | highly_complex

text \<open>
  \<open>DurationEstimate\<close>. The fields \<open>minimumMs\<close> and \<open>maximumMs\<close> are optional
  numbers in the model because \<open>estimate\<close> computes them with the quotient of
  \<open>calculateVariance\<close>; the confidence is a \<open>number\<close> with the special values
  because \<open>calculateConfidence\<close> can yield NaN. The \<open>humanReadable\<close> strings
  are formatting only and are left out. Field names shared by several interfaces get a
  prefix.
\<close>

record DurationEstimate =
  minimumMs :: "real option"
  expectedMs :: real
  maximumMs :: "real option"
  confidence :: number
  basedOnSamples :: nat
  d_category :: TaskCategory
  d_complexity :: TaskComplexity

record TaskHistoryEntry =
  h_taskId :: string
  h_category :: TaskCategory
  h_complexity :: TaskComplexity
  h_estimatedMs :: real
  actualMs :: real
  accuracy :: real
  h_timestamp :: real
  h_sessionId :: string

record ActiveTask =
  a_taskId :: string
  a_category :: TaskCategory
  a_complexity :: TaskComplexity
  startTime :: real
  a_estimatedMs :: real

text \<open>A learned baseline, the value type of \<open>learnedBaselines\<close>.\<close>

record Baseline =
  mean :: real
  b_confidence :: real

section \<open>Confidence scoring utilities (utils/confidence.ts)\<close>

text \<open>
  The loop of \<open>calculateConfidence\<close> over the relevant entries: one step adds the
  entry's weighted accuracy and its weight to the two running sums. The weight
  \<open>Math.exp(-ageDays / decayDays)\<close> is 0 for an entry older than about 745.13 decay
  periods, Infinity for an entry stamped more than about 709.78 decay periods in the
  future, and NaN when both the age and the decay period are 0.
\<close>

definition confidence_step ::
  "real \<Rightarrow> real \<Rightarrow> TaskHistoryEntry \<Rightarrow> number \<times> number \<Rightarrow> number \<times> number" where
  "confidence_step now decayDays entry acc =
     (let ageDays = (now - h_timestamp entry) / MS_PER_DAY;
          weight = Math_exp (num_div (Fin (- ageDays)) (Fin decayDays))
      in (num_add (fst acc) (num_mul (Fin (accuracy entry)) weight), num_add (snd acc) weight))"

text \<open>
  \<open>calculateConfidence(history, category, complexity, options)\<close>; the two options
  default to 3 and 30 when absent. The test \<open>weightSum > 0\<close> fails when every weight
  has underflowed to 0, and when the sum is NaN.
\<close>

definition calculateConfidence ::
  "TaskHistoryEntry list \<Rightarrow> TaskCategory \<Rightarrow> TaskComplexity \<Rightarrow> real option \<Rightarrow> real option
     \<Rightarrow> real \<Rightarrow> number" where
  "calculateConfidence history category complexity minSamplesOpt decayDaysOpt now =
     (let minSamples = (case minSamplesOpt of None \<Rightarrow> 3 | Some m \<Rightarrow> m);
          decayDays = (case decayDaysOpt of None \<Rightarrow> 30 | Some d \<Rightarrow> d);
          relevant = filter (\<lambda>h. h_category h = category \<and> h_complexity h = complexity) history
      in if length relevant = 0 then Fin (3 / 10)
         else if real (length relevant) < minSamples
           then Fin (3 / 10 + (real (length relevant) / minSamples) * (2 / 10))
         else
           let totals = fold (confidence_step now decayDays) relevant (Fin 0, Fin 0);
               weightedAccuracySum = fst totals;
               weightSum = snd totals;
               weightedAccuracy =
                 (if num_lt (Fin 0) weightSum then num_div weightedAccuracySum weightSum
                  else Fin (1 / 2));
               sampleBoost = min (2 / 10) (real (length relevant) * (2 / 100))
           in Math_min (Fin (95 / 100))
                (num_add (num_add (Fin (1 / 2)) (num_mul weightedAccuracy (Fin (3 / 10))))
                   (Fin sampleBoost)))"

definition calculateAccuracy :: "real \<Rightarrow> real \<Rightarrow> real" where
  "calculateAccuracy estimatedMs actualMs' =
     (if actualMs' = 0 then 0
      else
        let ratio = estimatedMs / actualMs'
        in if ratio \<ge> 1 then max 0 (1 - (ratio - 1) * (1 / 2))
           else max 0 ratio)"

text \<open>
  \<open>bayesianUpdate(priorMean, priorConfidence, observedValue, learningRate)\<close>. The
  divisor \<open>weight + newWeight\<close> is positive whenever the prior confidence is
  non-negative and the learning rate lies in (0, 1].
\<close>

definition bayesianUpdate :: "real \<Rightarrow> real \<Rightarrow> real \<Rightarrow> real \<Rightarrow> Baseline" where
  "bayesianUpdate priorMean priorConfidence observedValue learningRate =
     (let weight = priorConfidence * (1 - learningRate);
          newWeight = learningRate;
          newMean = (priorMean * weight + observedValue * newWeight) / (weight + newWeight);
          newConfidence = min (95 / 100) (priorConfidence + learningRate * (1 / 10))
      in \<lparr>mean = newMean, b_confidence = newConfidence\<rparr>)"

text \<open>
  \<open>calculateVariance(history)\<close>: the coefficient of variation of the actual durations.
  With fewer than two entries it is 0.5. The final quotient has the mean as divisor,
  which is zero when every duration is zero: then the source yields NaN (or Infinity),
  the model \<open>None\<close>.
\<close>

definition calculateVariance :: "TaskHistoryEntry list \<Rightarrow> real option" where
  "calculateVariance history =
     (if length history < 2 then Some (1 / 2)
      else
        let actuals = map actualMs history;
            mean' = foldl (\<lambda>a b. a + b) 0 actuals / real (length actuals);
            squaredDiffs = map (\<lambda>v. (v - mean') ^ 2) actuals;
            variance = foldl (\<lambda>a b. a + b) 0 squaredDiffs / real (length actuals)
        in js_div (sqrt variance) mean')"

section \<open>Time math (utils/time-math.ts)\<close>

text \<open>
  \<open>exponentialDecay(initialValue, halfLifeMs, elapsedMs)\<close>, the product of the initial
  value and \<open>Math.pow(0.5, elapsedMs / halfLifeMs)\<close>. The divisor \<open>halfLifeMs\<close> is
  non-zero in every theorem below.
\<close>

definition exponentialDecay :: "real \<Rightarrow> real \<Rightarrow> real \<Rightarrow> real" where
  "exponentialDecay initialValue halfLifeMs elapsedMs =
     initialValue * Math_pow_half (elapsedMs / halfLifeMs)"

section \<open>Priority scheduler (engines/priority-scheduler.ts)\<close>

datatype TaskStatus = pending | in_progress | completed | deferred | cancelled

record ScheduledTask =
  s_id :: string
  title :: string
  description :: "string option"
  deadline :: "real option"
  estimatedDuration :: DurationEstimate
  priority :: int
  urgency :: real
  importance :: real
  status :: TaskStatus
  createdAt :: real
  updatedAt :: real
  completedAt :: "real option"
  s_channel :: "string option"
  s_sessionId :: "string option"
  tags :: "string list"

record AddTaskInput =
  i_title :: string
  i_description :: "string option"
  i_deadline :: "real option"
  i_estimatedDuration :: DurationEstimate
  i_urgency :: real
  i_importance :: real
  i_tags :: "string list"
  i_channel :: "string option"
  i_sessionId :: "string option"

text \<open>
  The argument of \<open>updateTask\<close>: a partial object over urgency, importance, deadline,
  title, description and tags. A key that is absent is \<open>None\<close>; for the two optional
  fields a key that is present with the value \<open>undefined\<close> is \<open>Some None\<close>.
\<close>

record TaskUpdates =
  u_urgency :: "real option"
  u_importance :: "real option"
  u_deadline :: "real option option"
  u_title :: "string option"
  u_description :: "string option option"
  u_tags :: "string list option"

text \<open>The configuration after the constructor has filled in the defaults.\<close>

record PrioritySchedulerConfig =
  urgencyWeight :: real
  importanceWeight :: real
  effortWeight :: real
  deadlineProximityWeight :: real

definition defaultSchedulerConfig :: PrioritySchedulerConfig where
  "defaultSchedulerConfig =
     \<lparr>urgencyWeight = 4 / 10, importanceWeight = 3 / 10, effortWeight = 2 / 10,
      deadlineProximityWeight = 1 / 10\<rparr>"

text \<open>
  \<open>calculatePriority(task)\<close>. The test \<open>if (deadline)\<close> is false for an absent
  deadline and for the deadline 0.
\<close>

definition calculatePriority :: "PrioritySchedulerConfig \<Rightarrow> real \<Rightarrow> ScheduledTask \<Rightarrow> int" where
  "calculatePriority cfg now task =
     (let urgencyScore = urgency task / 100;
          importanceScore = importance task / 100;
          maxDuration = MS_PER_DAY;
          effortScore = 1 - min 1 (expectedMs (estimatedDuration task) / maxDuration);
          deadlineScore =
            (case deadline task of
               None \<Rightarrow> 1 / 2
             | Some d \<Rightarrow>
                 if d = 0 then 1 / 2
                 else
                   let timeUntilDeadline = d - now
                   in if timeUntilDeadline \<le> 0 then 1
                      else if timeUntilDeadline < expectedMs (estimatedDuration task) then 95 / 100
                      else if timeUntilDeadline < MS_PER_HOUR then 9 / 10
                      else if timeUntilDeadline < MS_PER_HOUR * 4 then 8 / 10
                      else if timeUntilDeadline < MS_PER_DAY then 6 / 10
                      else 3 / 10);
          weighted =
            (urgencyScore * urgencyWeight cfg
             + importanceScore * importanceWeight cfg
             + effortScore * effortWeight cfg
             + deadlineScore * deadlineProximityWeight cfg) * 100
      in Math_round (min 100 (max 0 weighted)))"

text \<open>
  \<open>sortTasks\<close>: \<open>Array.prototype.sort\<close> with the comparator
  \<open>b.priority - a.priority\<close>, a stable sort by descending priority.
\<close>

definition sortTasks :: "ScheduledTask list \<Rightarrow> ScheduledTask list" where
  "sortTasks tasks = sort_key (\<lambda>t. - priority t) tasks"

text \<open>
  \<open>addTask(input)\<close>. The identifier, built in the source from the clock and
  \<open>Math.random()\<close>, is the argument \<open>newId\<close>. The result is the new task and the
  new task collection.
\<close>

definition addTask ::
  "PrioritySchedulerConfig \<Rightarrow> real \<Rightarrow> string \<Rightarrow> AddTaskInput \<Rightarrow> ScheduledTask list
     \<Rightarrow> ScheduledTask \<times> ScheduledTask list" where
  "addTask cfg now newId input tasks =
     (let task0 =
            \<lparr>s_id = newId, title = i_title input, description = i_description input,
             deadline = i_deadline input, estimatedDuration = i_estimatedDuration input,
             priority = 0, urgency = i_urgency input, importance = i_importance input,
             status = pending, createdAt = now, updatedAt = now, completedAt = None,
             s_channel = i_channel input, s_sessionId = i_sessionId input,
             tags = i_tags input\<rparr>;
          task = task0\<lparr>priority := calculatePriority cfg now task0\<rparr>
      in (task, sortTasks (tasks @ [task])))"

text \<open>
  \<open>Array.prototype.find\<close> followed by a mutation of the object found: the first
  element that satisfies the test is replaced.
\<close>

fun update_first :: "('a \<Rightarrow> bool) \<Rightarrow> ('a \<Rightarrow> 'a) \<Rightarrow> 'a list \<Rightarrow> 'a list" where
  "update_first P f [] = []"
| "update_first P f (x # xs) = (if P x then f x # xs else x # update_first P f xs)"

definition updateTaskStatus ::
  "real \<Rightarrow> string \<Rightarrow> TaskStatus \<Rightarrow> ScheduledTask list
     \<Rightarrow> ScheduledTask option \<times> ScheduledTask list" where
  "updateTaskStatus now taskId newStatus tasks =
     (let change = (\<lambda>t.
            let t1 = t\<lparr>status := newStatus, updatedAt := now\<rparr>
            in if newStatus = completed then t1\<lparr>completedAt := Some now\<rparr> else t1)
      in case find (\<lambda>t. s_id t = taskId) tasks of
           None \<Rightarrow> (None, tasks)
         | Some t \<Rightarrow> (Some (change t), update_first (\<lambda>t. s_id t = taskId) change tasks))"

text \<open>\<open>Object.assign(task, updates)\<close>.\<close>

definition assignUpdates :: "TaskUpdates \<Rightarrow> ScheduledTask \<Rightarrow> ScheduledTask" where
  "assignUpdates updates task =
     task\<lparr>urgency := (case u_urgency updates of None \<Rightarrow> urgency task | Some v \<Rightarrow> v),
          importance := (case u_importance updates of None \<Rightarrow> importance task | Some v \<Rightarrow> v),
          deadline := (case u_deadline updates of None \<Rightarrow> deadline task | Some v \<Rightarrow> v),
          title := (case u_title updates of None \<Rightarrow> title task | Some v \<Rightarrow> v),
          description :=
            (case u_description updates of None \<Rightarrow> description task | Some v \<Rightarrow> v),
          tags := (case u_tags updates of None \<Rightarrow> tags task | Some v \<Rightarrow> v)\<rparr>"

definition updateTask ::
  "PrioritySchedulerConfig \<Rightarrow> real \<Rightarrow> string \<Rightarrow> TaskUpdates \<Rightarrow> ScheduledTask list
     \<Rightarrow> ScheduledTask option \<times> ScheduledTask list" where
  "updateTask cfg now taskId updates tasks =
     (let change = (\<lambda>t.
            let t1 = (assignUpdates updates t)\<lparr>updatedAt := now\<rparr>
            in t1\<lparr>priority := calculatePriority cfg now t1\<rparr>)
      in case find (\<lambda>t. s_id t = taskId) tasks of
           None \<Rightarrow> (None, tasks)
         | Some t \<Rightarrow>
             (Some (change t), sortTasks (update_first (\<lambda>t. s_id t = taskId) change tasks)))"

text \<open>\<open>refreshPriorities\<close>: recompute the priority of every pending task, then sort.\<close>

definition refreshTask :: "PrioritySchedulerConfig \<Rightarrow> real \<Rightarrow> ScheduledTask \<Rightarrow> ScheduledTask" where
  "refreshTask cfg now task =
     (if status task = pending then task\<lparr>priority := calculatePriority cfg now task\<rparr>
      else task)"

definition refreshPriorities ::
  "PrioritySchedulerConfig \<Rightarrow> real \<Rightarrow> ScheduledTask list \<Rightarrow> ScheduledTask list" where
  "refreshPriorities cfg now tasks = sortTasks (map (refreshTask cfg now) tasks)"

definition getNextTask ::
  "PrioritySchedulerConfig \<Rightarrow> real \<Rightarrow> ScheduledTask list
     \<Rightarrow> ScheduledTask option \<times> ScheduledTask list" where
  "getNextTask cfg now tasks =
     (let tasks1 = refreshPriorities cfg now tasks;
          pendingTasks = sort_key (\<lambda>t. - priority t) (filter (\<lambda>t. status t = pending) tasks1)
      in (case pendingTasks of [] \<Rightarrow> None | t # _ \<Rightarrow> Some t, tasks1))"

definition getTaskList ::
  "PrioritySchedulerConfig \<Rightarrow> real \<Rightarrow> ScheduledTask list
     \<Rightarrow> ScheduledTask list \<times> ScheduledTask list" where
  "getTaskList cfg now tasks =
     (let tasks1 = refreshPriorities cfg now tasks
      in (sort_key (\<lambda>t. - priority t) tasks1, tasks1))"

text \<open>\<open>removeTask\<close>: \<open>findIndex\<close> and \<open>splice\<close> remove the first task with the id.\<close>

fun remove_first :: "('a \<Rightarrow> bool) \<Rightarrow> 'a list \<Rightarrow> 'a list" where
  "remove_first P [] = []"
| "remove_first P (x # xs) = (if P x then xs else x # remove_first P xs)"

definition removeTask :: "string \<Rightarrow> ScheduledTask list \<Rightarrow> bool \<times> ScheduledTask list" where
  "removeTask taskId tasks =
     (case find (\<lambda>t. s_id t = taskId) tasks of
        None \<Rightarrow> (False, tasks)
      | Some _ \<Rightarrow> (True, remove_first (\<lambda>t. s_id t = taskId) tasks))"

text \<open>\<open>cleanupOldTasks(maxAgeDays = 30)\<close>: the number removed and the new collection.\<close>

definition cleanupOldTasks ::
  "real \<Rightarrow> real option \<Rightarrow> ScheduledTask list \<Rightarrow> nat \<times> ScheduledTask list" where
  "cleanupOldTasks now maxAgeDaysOpt tasks =
     (let maxAgeDays = (case maxAgeDaysOpt of None \<Rightarrow> 30 | Some d \<Rightarrow> d);
          cutoff = now - maxAgeDays * MS_PER_DAY;
          kept = filter (\<lambda>t. if status t = pending \<or> status t = in_progress then True
                              else updatedAt t > cutoff) tasks
      in (length tasks - length kept, kept))"

text \<open>
  A call of the scheduler's interface with its arguments, and the effect of a call made
  at the time \<open>now\<close> on the task collection.
\<close>

datatype SchedulerCall =
  AddTask string AddTaskInput
  | UpdateTask string TaskUpdates
  | UpdateTaskStatus string TaskStatus
  | GetNextTask
  | GetTaskList
  | RemoveTask string
  | CleanupOldTasks "real option"

fun scheduler_call ::
  "PrioritySchedulerConfig \<Rightarrow> real \<Rightarrow> SchedulerCall \<Rightarrow> ScheduledTask list \<Rightarrow> ScheduledTask list" where
  "scheduler_call cfg now (AddTask newId input) tasks = snd (addTask cfg now newId input tasks)"
| "scheduler_call cfg now (UpdateTask taskId updates) tasks =
     snd (updateTask cfg now taskId updates tasks)"
| "scheduler_call cfg now (UpdateTaskStatus taskId newStatus) tasks =
     snd (updateTaskStatus now taskId newStatus tasks)"
| "scheduler_call cfg now GetNextTask tasks = snd (getNextTask cfg now tasks)"
| "scheduler_call cfg now GetTaskList tasks = snd (getTaskList cfg now tasks)"
| "scheduler_call cfg now (RemoveTask taskId) tasks = snd (removeTask taskId tasks)"
| "scheduler_call cfg now (CleanupOldTasks maxAgeDaysOpt) tasks =
     snd (cleanupOldTasks now maxAgeDaysOpt tasks)"

fun scheduler_run ::
  "PrioritySchedulerConfig \<Rightarrow> (real \<times> SchedulerCall) list \<Rightarrow> ScheduledTask list
     \<Rightarrow> ScheduledTask list" where
  "scheduler_run cfg [] tasks = tasks"
| "scheduler_run cfg ((now, c) # cs) tasks = scheduler_run cfg cs (scheduler_call cfg now c tasks)"

section \<open>The priority scheduler on numbers with the special values\<close>

text \<open>
  Nothing validates the numbers that the scheduler is given. The definitions of the
  section above read them as reals: they are the scheduler on finite inputs. The
  definitions of this section are the same functions of the source on the type
  \<open>number\<close>: an urgency, an importance or a deadline may be \<open>undefined\<close>, NaN or
  infinite, and every operation of \<open>calculatePriority\<close> is the one with the special
  values and overflow.
\<close>

record DurationEstimate_num =
  n_minimumMs :: number
  n_expectedMs :: number
  n_maximumMs :: number
  n_confidence :: number
  n_basedOnSamples :: nat
  n_category :: TaskCategory
  n_complexity :: TaskComplexity

record ScheduledTask_num =
  n_id :: string
  n_title :: string
  n_description :: "string option"
  n_deadline :: "number option"
  n_estimatedDuration :: DurationEstimate_num
  n_priority :: number
  n_urgency :: "number option"
  n_importance :: "number option"
  n_status :: TaskStatus
  n_createdAt :: real
  n_updatedAt :: real
  n_completedAt :: "real option"
  n_channel :: "string option"
  n_sessionId :: "string option"
  n_tags :: "string list"

record AddTaskInput_num =
  ni_title :: string
  ni_description :: "string option"
  ni_deadline :: "number option"
  ni_estimatedDuration :: DurationEstimate_num
  ni_urgency :: "number option"
  ni_importance :: "number option"
  ni_tags :: "string list"
  ni_channel :: "string option"
  ni_sessionId :: "string option"

text \<open>
  The argument of \<open>updateTask\<close>. A key that is absent is \<open>None\<close>; a key that is
  present with the value \<open>undefined\<close> is \<open>Some None\<close>, and \<open>Object.assign\<close> copies
  it like any other value.
\<close>

record TaskUpdates_num =
  nu_urgency :: "number option option"
  nu_importance :: "number option option"
  nu_deadline :: "number option option"
  nu_title :: "string option"
  nu_description :: "string option option"
  nu_tags :: "string list option"

record PrioritySchedulerConfig_num =
  n_urgencyWeight :: number
  n_importanceWeight :: number
  n_effortWeight :: number
  n_deadlineProximityWeight :: number

definition defaultSchedulerConfig_num :: PrioritySchedulerConfig_num where
  "defaultSchedulerConfig_num =
     \<lparr>n_urgencyWeight = Fin (4 / 10), n_importanceWeight = Fin (3 / 10),
      n_effortWeight = Fin (2 / 10), n_deadlineProximityWeight = Fin (1 / 10)\<rparr>"

definition calculatePriority_num ::
  "PrioritySchedulerConfig_num \<Rightarrow> real \<Rightarrow> ScheduledTask_num \<Rightarrow> number" where
  "calculatePriority_num cfg now task =
     (let urgencyScore = num_div (to_number (n_urgency task)) (Fin 100);
          importanceScore = num_div (to_number (n_importance task)) (Fin 100);
          maxDuration = Fin MS_PER_DAY;
          expected = n_expectedMs (n_estimatedDuration task);
          effortScore = num_sub (Fin 1) (Math_min (Fin 1) (num_div expected maxDuration));
          deadlineScore =
            (if truthy (n_deadline task) then
               let timeUntilDeadline = num_sub (to_number (n_deadline task)) (Fin now)
               in if num_le timeUntilDeadline (Fin 0) then 1
                  else if num_lt timeUntilDeadline expected then 95 / 100
                  else if num_lt timeUntilDeadline (Fin MS_PER_HOUR) then 9 / 10
                  else if num_lt timeUntilDeadline (Fin (MS_PER_HOUR * 4)) then 8 / 10
                  else if num_lt timeUntilDeadline (Fin MS_PER_DAY) then 6 / 10
                  else 3 / 10
             else 1 / 2);
          weighted =
            num_mul
              (num_add
                (num_add
                  (num_add (num_mul urgencyScore (n_urgencyWeight cfg))
                     (num_mul importanceScore (n_importanceWeight cfg)))
                  (num_mul effortScore (n_effortWeight cfg)))
                (num_mul (Fin deadlineScore) (n_deadlineProximityWeight cfg)))
              (Fin 100)
      in Math_round_num (Math_min (Fin 100) (Math_max (Fin 0) weighted)))"

text \<open>
  \<open>Array.prototype.sort\<close> with a comparator, a stable sort: \<open>x\<close> is placed after
  \<open>y\<close> when \<open>comparator(x, y) > 0\<close>, and a result NaN counts as 0. When some priority
  is NaN the comparator \<open>b.priority - a.priority\<close> is not a consistent ordering, and
  the order that \<open>sort\<close> then produces is left to the implementation; the model yields
  one permutation, and no theorem depends on which.
\<close>

fun insert_sorted :: "('a \<Rightarrow> 'a \<Rightarrow> number) \<Rightarrow> 'a \<Rightarrow> 'a list \<Rightarrow> 'a list" where
  "insert_sorted comparator x [] = [x]"
| "insert_sorted comparator x (y # ys) =
     (if num_lt (Fin 0) (comparator x y) then y # insert_sorted comparator x ys
      else x # y # ys)"

definition sort_with :: "('a \<Rightarrow> 'a \<Rightarrow> number) \<Rightarrow> 'a list \<Rightarrow> 'a list" where
  "sort_with comparator xs = foldr (insert_sorted comparator) xs []"

definition sortTasks_num :: "ScheduledTask_num list \<Rightarrow> ScheduledTask_num list" where
  "sortTasks_num tasks = sort_with (\<lambda>a b. num_sub (n_priority b) (n_priority a)) tasks"

definition addTask_num ::
  "PrioritySchedulerConfig_num \<Rightarrow> real \<Rightarrow> string \<Rightarrow> AddTaskInput_num \<Rightarrow> ScheduledTask_num list
     \<Rightarrow> ScheduledTask_num \<times> ScheduledTask_num list" where
  "addTask_num cfg now newId input tasks =
     (let task0 =
            \<lparr>n_id = newId, n_title = ni_title input, n_description = ni_description input,
             n_deadline = ni_deadline input, n_estimatedDuration = ni_estimatedDuration input,
             n_priority = Fin 0, n_urgency = ni_urgency input, n_importance = ni_importance input,
             n_status = pending, n_createdAt = now, n_updatedAt = now, n_completedAt = None,
             n_channel = ni_channel input, n_sessionId = ni_sessionId input,
             n_tags = ni_tags input\<rparr>;
          task = task0\<lparr>n_priority := calculatePriority_num cfg now task0\<rparr>
      in (task, sortTasks_num (tasks @ [task])))"

definition updateTaskStatus_num ::
  "real \<Rightarrow> string \<Rightarrow> TaskStatus \<Rightarrow> ScheduledTask_num list
     \<Rightarrow> ScheduledTask_num option \<times> ScheduledTask_num list" where
  "updateTaskStatus_num now taskId newStatus tasks =
     (let change = (\<lambda>t.
            let t1 = t\<lparr>n_status := newStatus, n_updatedAt := now\<rparr>
            in if newStatus = completed then t1\<lparr>n_completedAt := Some now\<rparr> else t1)
      in case find (\<lambda>t. n_id t = taskId) tasks of
           None \<Rightarrow> (None, tasks)
         | Some t \<Rightarrow> (Some (change t), update_first (\<lambda>t. n_id t = taskId) change tasks))"

definition assignUpdates_num :: "TaskUpdates_num \<Rightarrow> ScheduledTask_num \<Rightarrow> ScheduledTask_num" where
  "assignUpdates_num updates task =
     task\<lparr>n_urgency := (case nu_urgency updates of None \<Rightarrow> n_urgency task | Some v \<Rightarrow> v),
          n_importance :=
            (case nu_importance updates of None \<Rightarrow> n_importance task | Some v \<Rightarrow> v),
          n_deadline := (case nu_deadline updates of None \<Rightarrow> n_deadline task | Some v \<Rightarrow> v),
          n_title := (case nu_title updates of None \<Rightarrow> n_title task | Some v \<Rightarrow> v),
          n_description :=
            (case nu_description updates of None \<Rightarrow> n_description task | Some v \<Rightarrow> v),
          n_tags := (case nu_tags updates of None \<Rightarrow> n_tags task | Some v \<Rightarrow> v)\<rparr>"

definition updateTask_num ::
  "PrioritySchedulerConfig_num \<Rightarrow> real \<Rightarrow> string \<Rightarrow> TaskUpdates_num \<Rightarrow> ScheduledTask_num list
     \<Rightarrow> ScheduledTask_num option \<times> ScheduledTask_num list" where
  "updateTask_num cfg now taskId updates tasks =
     (let change = (\<lambda>t.
            let t1 = (assignUpdates_num updates t)\<lparr>n_updatedAt := now\<rparr>
            in t1\<lparr>n_priority := calculatePriority_num cfg now t1\<rparr>)
      in case find (\<lambda>t. n_id t = taskId) tasks of
           None \<Rightarrow> (None, tasks)
         | Some t \<Rightarrow>
             (Some (change t),
              sortTasks_num (update_first (\<lambda>t. n_id t = taskId) change tasks)))"

definition refreshTask_num ::
  "PrioritySchedulerConfig_num \<Rightarrow> real \<Rightarrow> ScheduledTask_num \<Rightarrow> ScheduledTask_num" where
  "refreshTask_num cfg now task =
     (if n_status task = pending then task\<lparr>n_priority := calculatePriority_num cfg now task\<rparr>
      else task)"

definition refreshPriorities_num ::
  "PrioritySchedulerConfig_num \<Rightarrow> real \<Rightarrow> ScheduledTask_num list \<Rightarrow> ScheduledTask_num list" where
  "refreshPriorities_num cfg now tasks = sortTasks_num (map (refreshTask_num cfg now) tasks)"

definition getNextTask_num ::
  "PrioritySchedulerConfig_num \<Rightarrow> real \<Rightarrow> ScheduledTask_num list
     \<Rightarrow> ScheduledTask_num option \<times> ScheduledTask_num list" where
  "getNextTask_num cfg now tasks =
     (let tasks1 = refreshPriorities_num cfg now tasks;
          pendingTasks = sortTasks_num (filter (\<lambda>t. n_status t = pending) tasks1)
      in (case pendingTasks of [] \<Rightarrow> None | t # _ \<Rightarrow> Some t, tasks1))"

definition getTaskList_num ::
  "PrioritySchedulerConfig_num \<Rightarrow> real \<Rightarrow> ScheduledTask_num list
     \<Rightarrow> ScheduledTask_num list \<times> ScheduledTask_num list" where
  "getTaskList_num cfg now tasks =
     (let tasks1 = refreshPriorities_num cfg now tasks
      in (sortTasks_num tasks1, tasks1))"

definition removeTask_num ::
  "string \<Rightarrow> ScheduledTask_num list \<Rightarrow> bool \<times> ScheduledTask_num list" where
  "removeTask_num taskId tasks =
     (case find (\<lambda>t. n_id t = taskId) tasks of
        None \<Rightarrow> (False, tasks)
      | Some _ \<Rightarrow> (True, remove_first (\<lambda>t. n_id t = taskId) tasks))"

definition cleanupOldTasks_num ::
  "real \<Rightarrow> number option \<Rightarrow> ScheduledTask_num list \<Rightarrow> nat \<times> ScheduledTask_num list" where
  "cleanupOldTasks_num now maxAgeDaysOpt tasks =
     (let maxAgeDays = (case maxAgeDaysOpt of None \<Rightarrow> Fin 30 | Some d \<Rightarrow> d);
          cutoff = num_sub (Fin now) (num_mul maxAgeDays (Fin MS_PER_DAY));
          kept = filter (\<lambda>t. if n_status t = pending \<or> n_status t = in_progress then True
                              else num_lt cutoff (Fin (n_updatedAt t))) tasks
      in (length tasks - length kept, kept))"

datatype SchedulerCall_num =
  AddTask_num string AddTaskInput_num
  | UpdateTask_num string TaskUpdates_num
  | UpdateTaskStatus_num string TaskStatus
  | GetNextTask_num
  | GetTaskList_num
  | RemoveTask_num string
  | CleanupOldTasks_num "number option"

fun scheduler_call_num ::
  "PrioritySchedulerConfig_num \<Rightarrow> real \<Rightarrow> SchedulerCall_num \<Rightarrow> ScheduledTask_num list
     \<Rightarrow> ScheduledTask_num list" where
  "scheduler_call_num cfg now (AddTask_num newId input) tasks =
     snd (addTask_num cfg now newId input tasks)"
| "scheduler_call_num cfg now (UpdateTask_num taskId updates) tasks =
     snd (updateTask_num cfg now taskId updates tasks)"
| "scheduler_call_num cfg now (UpdateTaskStatus_num taskId newStatus) tasks =
     snd (updateTaskStatus_num now taskId newStatus tasks)"
| "scheduler_call_num cfg now GetNextTask_num tasks = snd (getNextTask_num cfg now tasks)"
| "scheduler_call_num cfg now GetTaskList_num tasks = snd (getTaskList_num cfg now tasks)"
| "scheduler_call_num cfg now (RemoveTask_num taskId) tasks = snd (removeTask_num taskId tasks)"
| "scheduler_call_num cfg now (CleanupOldTasks_num maxAgeDaysOpt) tasks =
     snd (cleanupOldTasks_num now maxAgeDaysOpt tasks)"

fun scheduler_run_num ::
  "PrioritySchedulerConfig_num \<Rightarrow> (real \<times> SchedulerCall_num) list \<Rightarrow> ScheduledTask_num list
     \<Rightarrow> ScheduledTask_num list" where
  "scheduler_run_num cfg [] tasks = tasks"
| "scheduler_run_num cfg ((now, c) # cs) tasks =
     scheduler_run_num cfg cs (scheduler_call_num cfg now c tasks)"

text \<open>
  A priority within the bounds; a finite double; a weight of magnitude at most 1; a
  task and a call all of whose urgency, importance and expected duration are finite
  doubles (used in the statements below).
\<close>

definition in_range :: "number \<Rightarrow> bool" where
  "in_range p = (case p of Fin r \<Rightarrow> 0 \<le> r \<and> r \<le> 100 | _ \<Rightarrow> False)"

definition is_double :: "number \<Rightarrow> bool" where
  "is_double v = (case v of Fin r \<Rightarrow> \<bar>r\<bar> < overflow_bound | _ \<Rightarrow> False)"

definition weight_ok :: "number \<Rightarrow> bool" where
  "weight_ok w = (case w of Fin r \<Rightarrow> \<bar>r\<bar> \<le> 1 | _ \<Rightarrow> False)"

definition weights_ok :: "PrioritySchedulerConfig_num \<Rightarrow> bool" where
  "weights_ok cfg =
     (weight_ok (n_urgencyWeight cfg) \<and> weight_ok (n_importanceWeight cfg) \<and>
      weight_ok (n_effortWeight cfg) \<and> weight_ok (n_deadlineProximityWeight cfg))"

definition finite_task :: "ScheduledTask_num \<Rightarrow> bool" where
  "finite_task t =
     (is_double (to_number (n_urgency t)) \<and> is_double (to_number (n_importance t)) \<and>
      is_double (n_expectedMs (n_estimatedDuration t)))"

fun finite_call :: "SchedulerCall_num \<Rightarrow> bool" where
  "finite_call (AddTask_num newId input) =
     (is_double (to_number (ni_urgency input)) \<and> is_double (to_number (ni_importance input)) \<and>
      is_double (n_expectedMs (ni_estimatedDuration input)))"
| "finite_call (UpdateTask_num taskId updates) =
     ((case nu_urgency updates of None \<Rightarrow> True | Some v \<Rightarrow> is_double (to_number v)) \<and>
      (case nu_importance updates of None \<Rightarrow> True | Some v \<Rightarrow> is_double (to_number v)))"
| "finite_call c = True"

text \<open>
  The two invariants of the stored tasks: every priority is within the bounds or NaN;
  and, for a configuration with moderate weights, every task with finite factors has a
  priority within the bounds.
\<close>

definition priority_ok_num :: "ScheduledTask_num \<Rightarrow> bool" where
  "priority_ok_num t = (n_priority t = NaN \<or> in_range (n_priority t))"

definition finite_ok :: "ScheduledTask_num \<Rightarrow> bool" where
  "finite_ok t = (finite_task t \<and> in_range (n_priority t))"

text \<open>The value of a finite number (used in the proofs only).\<close>

definition num_value :: "number \<Rightarrow> real" where
  "num_value v = (case v of Fin r \<Rightarrow> r | _ \<Rightarrow> 0)"

text \<open>
  A task, an estimate and a configuration of the scheduler on finite inputs, read as
  values of the scheduler on numbers.
\<close>

definition number_of_estimate :: "DurationEstimate \<Rightarrow> DurationEstimate_num" where
  "number_of_estimate d =
     \<lparr>n_minimumMs = (case minimumMs d of None \<Rightarrow> NaN | Some v \<Rightarrow> Fin v),
      n_expectedMs = Fin (expectedMs d),
      n_maximumMs = (case maximumMs d of None \<Rightarrow> NaN | Some v \<Rightarrow> Fin v),
      n_confidence = confidence d, n_basedOnSamples = basedOnSamples d,
      n_category = d_category d, n_complexity = d_complexity d\<rparr>"

definition number_of_task :: "ScheduledTask \<Rightarrow> ScheduledTask_num" where
  "number_of_task t =
     \<lparr>n_id = s_id t, n_title = title t, n_description = description t,
      n_deadline = map_option Fin (deadline t),
      n_estimatedDuration = number_of_estimate (estimatedDuration t),
      n_priority = Fin (real_of_int (priority t)), n_urgency = Some (Fin (urgency t)),
      n_importance = Some (Fin (importance t)), n_status = status t,
      n_createdAt = createdAt t, n_updatedAt = updatedAt t, n_completedAt = completedAt t,
      n_channel = s_channel t, n_sessionId = s_sessionId t, n_tags = tags t\<rparr>"

definition number_of_config :: "PrioritySchedulerConfig \<Rightarrow> PrioritySchedulerConfig_num" where
  "number_of_config cfg =
     \<lparr>n_urgencyWeight = Fin (urgencyWeight cfg), n_importanceWeight = Fin (importanceWeight cfg),
      n_effortWeight = Fin (effortWeight cfg),
      n_deadlineProximityWeight = Fin (deadlineProximityWeight cfg)\<rparr>"

text \<open>Magnitudes for which no operation of \<open>calculatePriority\<close> overflows.\<close>

definition moderate_task :: "PrioritySchedulerConfig \<Rightarrow> real \<Rightarrow> ScheduledTask \<Rightarrow> bool" where
  "moderate_task cfg now t =
     (\<bar>urgency t\<bar> \<le> 10 ^ 300 \<and> \<bar>importance t\<bar> \<le> 10 ^ 300 \<and>
      \<bar>expectedMs (estimatedDuration t)\<bar> \<le> 10 ^ 300 \<and>
      (case deadline t of None \<Rightarrow> True | Some d \<Rightarrow> \<bar>d - now\<bar> \<le> 10 ^ 300) \<and>
      \<bar>urgencyWeight cfg\<bar> \<le> 100 \<and> \<bar>importanceWeight cfg\<bar> \<le> 100 \<and>
      \<bar>effortWeight cfg\<bar> \<le> 100 \<and> \<bar>deadlineProximityWeight cfg\<bar> \<le> 100)"

section \<open>Constants (constants.ts)\<close>

definition COMPLEXITY_MULTIPLIERS :: "TaskComplexity \<Rightarrow> real" where
  "COMPLEXITY_MULTIPLIERS c =
     (case c of trivial \<Rightarrow> 25 / 100 | simple \<Rightarrow> 1 / 2 | moderate \<Rightarrow> 1 | complex \<Rightarrow> 2
      | highly_complex \<Rightarrow> 4)"

definition BASE_DURATION_MS :: "TaskCategory \<Rightarrow> real" where
  "BASE_DURATION_MS c =
     (case c of research \<Rightarrow> 300000 | coding \<Rightarrow> 600000 | writing \<Rightarrow> 480000
      | analysis \<Rightarrow> 420000 | communication \<Rightarrow> 60000 | scheduling \<Rightarrow> 120000
      | file_operations \<Rightarrow> 30000 | web_browsing \<Rightarrow> 180000 | other \<Rightarrow> 300000)"

section \<open>Task time estimator (engines/task-estimator.ts)\<close>

text \<open>
  A JavaScript object used as a dictionary with string keys is an association list with
  distinct keys, in insertion order: \<open>Object.values\<close> lists the values in that order.
  Assigning to an existing key keeps its place, assigning to a new key appends.
\<close>

fun obj_set :: "(string \<times> 'v) list \<Rightarrow> string \<Rightarrow> 'v \<Rightarrow> (string \<times> 'v) list" where
  "obj_set [] k v = [(k, v)]"
| "obj_set ((k', v') # kvs) k v =
     (if k' = k then (k, v) # kvs else (k', v') # obj_set kvs k v)"

definition obj_delete :: "(string \<times> 'v) list \<Rightarrow> string \<Rightarrow> (string \<times> 'v) list" where
  "obj_delete kvs k = filter (\<lambda>kv. fst kv \<noteq> k) kvs"

definition obj_values :: "(string \<times> 'v) list \<Rightarrow> 'v list" where
  "obj_values kvs = map snd kvs"

text \<open>
  Reading \<open>obj[key]\<close> on such an object yields the object's own property under the
  key; if there is none, a member inherited from \<open>Object.prototype\<close> when the key is
  one of the names below (a function, or for \<open>__proto__\<close> the prototype itself: a
  truthy value that is not a value of the dictionary); otherwise \<open>undefined\<close>.
\<close>

definition OBJECT_PROTOTYPE_KEYS :: "string list" where
  "OBJECT_PROTOTYPE_KEYS =
     [''constructor'', ''__defineGetter__'', ''__defineSetter__'', ''hasOwnProperty'',
      ''__lookupGetter__'', ''__lookupSetter__'', ''isPrototypeOf'', ''propertyIsEnumerable'',
      ''toString'', ''valueOf'', ''__proto__'', ''toLocaleString'']"

datatype 'v Lookup = Own 'v | Inherited | Absent

definition obj_get :: "(string \<times> 'v) list \<Rightarrow> string \<Rightarrow> 'v Lookup" where
  "obj_get kvs k =
     (case map_of kvs k of
        Some v \<Rightarrow> Own v
      | None \<Rightarrow> if k \<in> set OBJECT_PROTOTYPE_KEYS then Inherited else Absent)"

text \<open>The configuration after the constructor has filled in the defaults.\<close>

record TaskEstimatorConfig =
  learningRate :: real
  confidenceDecayDays :: real
  minSamplesForEstimate :: real

definition defaultEstimatorConfig :: TaskEstimatorConfig where
  "defaultEstimatorConfig =
     \<lparr>learningRate = 1 / 10, confidenceDecayDays = 30, minSamplesForEstimate = 3\<rparr>"

text \<open>
  The part of the plugin state the estimator works on, together with its private map
  \<open>learnedBaselines\<close>. The key of that map is the string \<open>category:complexity\<close>,
  here the pair. \<open>sessionTag\<close> is the string \<open>session_<bootTime>\<close>.
\<close>

record EstimatorState =
  taskHistory :: "TaskHistoryEntry list"
  activeTasks :: "(string \<times> ActiveTask) list"
  learnedBaselines :: "TaskCategory \<times> TaskComplexity \<Rightarrow> Baseline option"
  sessionTag :: string



text \<open>
  \<open>getBaseline\<close>. \<open>BASE_DURATION_MS[category] || BASE_DURATION_MS.other\<close> and
  \<open>COMPLEXITY_MULTIPLIERS[complexity] || 1.0\<close> take the alternative when the table
  entry is 0.
\<close>

definition getBaseline :: "EstimatorState \<Rightarrow> TaskCategory \<Rightarrow> TaskComplexity \<Rightarrow> real" where
  "getBaseline s category complexity =
     (let fallback =
            (let baseMs = (if BASE_DURATION_MS category = 0 then BASE_DURATION_MS other
                           else BASE_DURATION_MS category);
                 multiplier = (if COMPLEXITY_MULTIPLIERS complexity = 0 then 1
                               else COMPLEXITY_MULTIPLIERS complexity)
             in baseMs * multiplier)
      in case learnedBaselines s (category, complexity) of
           Some learned \<Rightarrow> if b_confidence learned > 1 / 2 then mean learned else fallback
         | None \<Rightarrow> fallback)"

text \<open>
  \<open>estimate(category, complexity)\<close>. \<open>minimumMs\<close> and \<open>maximumMs\<close> are \<open>None\<close>
  when the variance factor is not a finite number or the quotient
  \<open>baseline / varianceFactor\<close> has the divisor 0.
\<close>

definition estimate ::
  "TaskEstimatorConfig \<Rightarrow> real \<Rightarrow> EstimatorState \<Rightarrow> TaskCategory \<Rightarrow> TaskComplexity
     \<Rightarrow> DurationEstimate" where
  "estimate cfg now s category complexity =
     (let relevantHistory =
            filter (\<lambda>h. h_category h = category \<and> h_complexity h = complexity) (taskHistory s);
          baseline = getBaseline s category complexity;
          variance = calculateVariance relevantHistory;
          confidence' =
            calculateConfidence relevantHistory category complexity
              (Some (minSamplesForEstimate cfg)) (Some (confidenceDecayDays cfg)) now;
          varianceFactor = map_option (\<lambda>v. 1 + v) variance
      in \<lparr>minimumMs =
            (case varianceFactor of
               None \<Rightarrow> None
             | Some f \<Rightarrow> map_option (\<lambda>q. real_of_int (Math_round q)) (js_div baseline f)),
          expectedMs = real_of_int (Math_round baseline),
          maximumMs = map_option (\<lambda>f. real_of_int (Math_round (baseline * f))) varianceFactor,
          confidence = confidence',
          basedOnSamples = length relevantHistory,
          d_category = category,
          d_complexity = complexity\<rparr>)"

text \<open>
  \<open>startTask(category, complexity)\<close>; the identifier, built from the clock and
  \<open>Math.random()\<close>, is the argument \<open>newId\<close>.
\<close>

definition startTask ::
  "TaskEstimatorConfig \<Rightarrow> real \<Rightarrow> string \<Rightarrow> TaskCategory \<Rightarrow> TaskComplexity \<Rightarrow> EstimatorState
     \<Rightarrow> string \<times> EstimatorState" where
  "startTask cfg now newId category complexity s =
     (let est = estimate cfg now s category complexity;
          activeTask =
            \<lparr>a_taskId = newId, a_category = category, a_complexity = complexity,
             startTime = now, a_estimatedMs = expectedMs est\<rparr>
      in (newId, s\<lparr>activeTasks := obj_set (activeTasks s) newId activeTask\<rparr>))"

text \<open>
  The history after \<open>push(entry)\<close> and the cut to the last 1000 entries.
\<close>

definition pushHistory :: "TaskHistoryEntry list \<Rightarrow> TaskHistoryEntry \<Rightarrow> TaskHistoryEntry list" where
  "pushHistory history entry =
     (let pushed = history @ [entry]
      in if length pushed > 1000 then drop (length pushed - 1000) pushed else pushed)"

text \<open>
  The first part of \<open>completeTask(taskId?)\<close>: the task to complete and the active
  tasks that remain. The test \<open>taskId && activeTasks[taskId]\<close> fails for an absent
  and for an empty \<open>taskId\<close> and for an id under which the lookup yields
  \<open>undefined\<close>; in each of these cases the last of \<open>Object.values(activeTasks)\<close> is
  taken, and deleted under its own \<open>taskId\<close> field.

  The test succeeds for the id of an active task, and also for an id that names a member
  inherited from \<open>Object.prototype\<close>. In the second case the source goes on with that
  member in the place of a task: \<open>delete\<close> removes nothing, every field read from the
  "task" is \<open>undefined\<close>, the duration and the accuracy are NaN, and the entry built
  from these is pushed onto the history, learned under the key \<open>undefined:undefined\<close>
  and returned. The state of the model holds tasks and entries with defined fields only;
  this outcome is the value \<open>InheritedMember\<close>, and the model does not follow it
  further.
\<close>

datatype NotATask = InheritedMember string

definition resolveTask ::
  "string option \<Rightarrow> (string \<times> ActiveTask) list
     \<Rightarrow> NotATask + (ActiveTask option \<times> (string \<times> ActiveTask) list)" where
  "resolveTask taskIdOpt active =
     (let mostRecent =
            (case obj_values active of
               [] \<Rightarrow> Inr (None, active)
             | v # vs \<Rightarrow>
                 let task = last (v # vs)
                 in Inr (Some task, obj_delete active (a_taskId task)))
      in case taskIdOpt of
           None \<Rightarrow> mostRecent
         | Some taskId \<Rightarrow>
             if taskId = [] then mostRecent
             else
               (case obj_get active taskId of
                  Own task \<Rightarrow> Inr (Some task, obj_delete active taskId)
                | Inherited \<Rightarrow> Inl (InheritedMember taskId)
                | Absent \<Rightarrow> mostRecent))"

definition completeTask ::
  "TaskEstimatorConfig \<Rightarrow> real \<Rightarrow> string option \<Rightarrow> EstimatorState
     \<Rightarrow> NotATask + (TaskHistoryEntry option \<times> EstimatorState)" where
  "completeTask cfg now taskIdOpt s =
     (case resolveTask taskIdOpt (activeTasks s) of
        Inl member \<Rightarrow> Inl member
      | Inr (None, _) \<Rightarrow> Inr (None, s)
      | Inr (Some task, remaining) \<Rightarrow>
          let actualMs' = now - startTime task;
              accuracy' = calculateAccuracy (a_estimatedMs task) actualMs';
              entry =
                \<lparr>h_taskId = a_taskId task, h_category = a_category task,
                 h_complexity = a_complexity task, h_estimatedMs = a_estimatedMs task,
                 actualMs = actualMs', accuracy = accuracy', h_timestamp = now,
                 h_sessionId = sessionTag s\<rparr>;
              key = (a_category task, a_complexity task);
              existing =
                (case learnedBaselines s key of
                   Some b \<Rightarrow> b
                 | None \<Rightarrow> \<lparr>mean = a_estimatedMs task, b_confidence = 3 / 10\<rparr>);
              updated =
                bayesianUpdate (mean existing) (b_confidence existing) actualMs'
                  (learningRate cfg)
          in Inr (Some entry,
                  s\<lparr>activeTasks := remaining,
                    taskHistory := pushHistory (taskHistory s) entry,
                    learnedBaselines := (learnedBaselines s)(key \<mapsto> updated)\<rparr>))"

text \<open>
  Well-formed active tasks, as \<open>startTask\<close> builds them: distinct keys, each the
  (non-empty) \<open>taskId\<close> of its task.
\<close>

definition active_wf :: "(string \<times> ActiveTask) list \<Rightarrow> bool" where
  "active_wf active =
     (distinct (map fst active) \<and> list_all (\<lambda>kv. a_taskId (snd kv) = fst kv \<and> fst kv \<noteq> []) active)"

section \<open>Temporal memory (managers/temporal-memory.ts)\<close>

text \<open>
  \<open>TemporalMemoryEntry\<close>. The optional \<open>temporalContext\<close> is a value the memory
  manager stores and never inspects; its type is the parameter \<open>'c\<close>.
\<close>

record 'c TemporalMemoryEntry =
  m_id :: string
  content :: string
  m_timestamp :: real
  decayScore :: real
  relevanceScore :: real
  accessCount :: int
  lastAccessedAt :: real
  temporalContext :: "'c option"
  associatedTasks :: "string list"

record MemorySearchOptions =
  maxAgeDays :: "real option"
  limit :: "int option"
  minRelevance :: "real option"

text \<open>The configuration after the constructor has filled in the defaults.\<close>

record TemporalMemoryConfig =
  decayHalfLifeDays :: real
  relevanceBoostRecent :: real
  includeTemporalContext :: bool

definition defaultMemoryConfig :: TemporalMemoryConfig where
  "defaultMemoryConfig =
     \<lparr>decayHalfLifeDays = 7, relevanceBoostRecent = 15 / 10, includeTemporalContext = True\<rparr>"

text \<open>
  \<open>addEntry(content, context)\<close>. The identifier, the first 16 hexadecimal digits of
  the MD5 digest of the content followed by the clock reading, is the argument
  \<open>newId\<close>. The result is the entry and the new index.
\<close>

definition addEntry ::
  "TemporalMemoryConfig \<Rightarrow> real \<Rightarrow> string \<Rightarrow> string \<Rightarrow> 'c option
     \<Rightarrow> (string \<times> 'c TemporalMemoryEntry) list
     \<Rightarrow> 'c TemporalMemoryEntry \<times> (string \<times> 'c TemporalMemoryEntry) list" where
  "addEntry cfg now newId content' ctx idx =
     (let entry =
            \<lparr>m_id = newId, content = content', m_timestamp = now, decayScore = 1,
             relevanceScore = 1, accessCount = 0, lastAccessedAt = now,
             temporalContext = (if includeTemporalContext cfg then ctx else None),
             associatedTasks = []\<rparr>
      in (entry, obj_set idx newId entry))"

text \<open>
  \<open>tokenize\<close>: lower case, every character that is neither a word character
  (\<open>[A-Za-z0-9_]\<close>) nor white space replaced by a space, split at white space, tokens
  of more than two characters kept. Strings are ASCII. \<open>split_ws\<close> may yield more empty
  strings than the \<open>split\<close> of the source does; the length filter removes them all.
\<close>

definition toLowerCase_char :: "char \<Rightarrow> char" where
  "toLowerCase_char c =
     (if 65 \<le> (of_char c :: nat) \<and> (of_char c :: nat) \<le> 90
      then char_of ((of_char c :: nat) + 32) else c)"

definition is_word_char :: "char \<Rightarrow> bool" where
  "is_word_char c =
     (let n = (of_char c :: nat)
      in (48 \<le> n \<and> n \<le> 57) \<or> (65 \<le> n \<and> n \<le> 90) \<or> (97 \<le> n \<and> n \<le> 122) \<or> n = 95)"

definition is_space_char :: "char \<Rightarrow> bool" where
  "is_space_char c = (let n = (of_char c :: nat) in n = 32 \<or> (9 \<le> n \<and> n \<le> 13))"

fun split_ws :: "string \<Rightarrow> string \<Rightarrow> string list" where
  "split_ws cur [] = [cur]"
| "split_ws cur (c # cs) =
     (if is_space_char c then cur # split_ws [] cs else split_ws (cur @ [c]) cs)"

definition tokenize :: "string \<Rightarrow> string list" where
  "tokenize text' =
     (let lowered = map toLowerCase_char text';
          replaced = map (\<lambda>c. if \<not> is_word_char c \<and> \<not> is_space_char c then CHR '' '' else c) lowered
      in filter (\<lambda>t. length t > 2) (split_ws [] replaced))"

text \<open>\<open>s.includes(t)\<close>: \<open>t\<close> occurs in \<open>s\<close> as a contiguous substring.\<close>

fun starts_with :: "string \<Rightarrow> string \<Rightarrow> bool" where
  "starts_with s [] = True"
| "starts_with [] (c # cs) = False"
| "starts_with (x # xs) (c # cs) = (x = c \<and> starts_with xs cs)"

fun str_includes :: "string \<Rightarrow> string \<Rightarrow> bool" where
  "str_includes [] t = (t = [])"
| "str_includes (x # xs) t = (starts_with (x # xs) t \<or> str_includes xs t)"

text \<open>
  \<open>xs.slice(0, n)\<close> for an integer \<open>n\<close>: a negative \<open>n\<close> counts from the end.
\<close>

definition slice0 :: "int \<Rightarrow> 'a list \<Rightarrow> 'a list" where
  "slice0 n xs = (if n < 0 then take (nat (int (length xs) + n)) xs else take (nat n) xs)"

text \<open>The relevance that \<open>search\<close> computes for one entry (its decay score updated).\<close>

definition relevanceOf ::
  "TemporalMemoryConfig \<Rightarrow> string list \<Rightarrow> 'c TemporalMemoryEntry \<Rightarrow> real" where
  "relevanceOf cfg queryTerms e =
     (let contentTerms = tokenize (content e);
          matchCount =
            length (filter (\<lambda>qt. list_ex (\<lambda>ct. str_includes ct qt \<or> str_includes qt ct) contentTerms)
              queryTerms);
          baseRelevance =
            (if length queryTerms > 0 then real matchCount / real (length queryTerms) else 0);
          recencyBoost = (if decayScore e > 8 / 10 then relevanceBoostRecent cfg else 1);
          accessBoost = 1 + min (2 / 10) (real_of_int (accessCount e) * (2 / 100))
      in baseRelevance * recencyBoost * decayScore e * accessBoost)"

text \<open>
  The access recorded for one result: if the index has the key \<open>result.id\<close>, the entry
  under that key gets its \<open>accessCount\<close> incremented and its \<open>lastAccessedAt\<close> set.
\<close>

definition recordAccess ::
  "real \<Rightarrow> string \<Rightarrow> (string \<times> 'c TemporalMemoryEntry) list
     \<Rightarrow> (string \<times> 'c TemporalMemoryEntry) list" where
  "recordAccess now rid idx =
     (case map_of idx rid of
        None \<Rightarrow> idx
      | Some _ \<Rightarrow>
          map (\<lambda>kv. if fst kv = rid
                     then (fst kv, (snd kv)\<lparr>accessCount := accessCount (snd kv) + 1,
                                            lastAccessedAt := now\<rparr>)
                     else kv) idx)"

text \<open>
  \<open>search(query, options)\<close>: the returned entries (copies with the recomputed decay
  and relevance scores) and the new index. \<open>maxAgeDays ? ... : 0\<close> takes the
  alternative for an absent and for a zero \<open>maxAgeDays\<close>.
\<close>

definition search ::
  "TemporalMemoryConfig \<Rightarrow> real \<Rightarrow> string \<Rightarrow> MemorySearchOptions
     \<Rightarrow> (string \<times> 'c TemporalMemoryEntry) list
     \<Rightarrow> 'c TemporalMemoryEntry list \<times> (string \<times> 'c TemporalMemoryEntry) list" where
  "search cfg now query options idx =
     (let limit' = (case limit options of None \<Rightarrow> 10 | Some l \<Rightarrow> l);
          minRelevance' = (case minRelevance options of None \<Rightarrow> 1 / 10 | Some r \<Rightarrow> r);
          halfLifeMs = decayHalfLifeDays cfg * MS_PER_DAY;
          cutoff =
            (case maxAgeDays options of
               None \<Rightarrow> 0
             | Some d \<Rightarrow> if d = 0 then 0 else now - d * MS_PER_DAY);
          entries0 = filter (\<lambda>e. m_timestamp e \<ge> cutoff) (obj_values idx);
          entries1 =
            map (\<lambda>e. e\<lparr>decayScore := exponentialDecay 1 halfLifeMs (now - m_timestamp e)\<rparr>)
              entries0;
          queryTerms = tokenize query;
          entries2 = map (\<lambda>e. e\<lparr>relevanceScore := relevanceOf cfg queryTerms e\<rparr>) entries1;
          entries3 = filter (\<lambda>e. relevanceScore e \<ge> minRelevance') entries2;
          entries4 = sort_key (\<lambda>e. - relevanceScore e) entries3;
          results = slice0 limit' entries4
      in (results, fold (\<lambda>result. recordAccess now (m_id result)) results idx))"

text \<open>\<open>getEntry\<close>, \<open>updateEntry\<close>, \<open>associateTask\<close>, \<open>removeEntry\<close>.\<close>

definition getEntry ::
  "real \<Rightarrow> string \<Rightarrow> (string \<times> 'c TemporalMemoryEntry) list
     \<Rightarrow> 'c TemporalMemoryEntry option \<times> (string \<times> 'c TemporalMemoryEntry) list" where
  "getEntry now eid idx =
     (case map_of idx eid of
        None \<Rightarrow> (None, idx)
      | Some e \<Rightarrow>
          (Some (e\<lparr>accessCount := accessCount e + 1, lastAccessedAt := now\<rparr>),
           recordAccess now eid idx))"

definition updateEntry ::
  "string \<Rightarrow> string option \<Rightarrow> string list option \<Rightarrow> (string \<times> 'c TemporalMemoryEntry) list
     \<Rightarrow> 'c TemporalMemoryEntry option \<times> (string \<times> 'c TemporalMemoryEntry) list" where
  "updateEntry eid newContent newTasks idx =
     (let change = (\<lambda>e.
            e\<lparr>content := (case newContent of None \<Rightarrow> content e | Some c \<Rightarrow> c),
              associatedTasks := (case newTasks of None \<Rightarrow> associatedTasks e | Some ts \<Rightarrow> ts)\<rparr>)
      in case map_of idx eid of
           None \<Rightarrow> (None, idx)
         | Some e \<Rightarrow>
             (Some (change e), map (\<lambda>kv. if fst kv = eid then (fst kv, change (snd kv)) else kv) idx))"

definition associateTask ::
  "string \<Rightarrow> string \<Rightarrow> (string \<times> 'c TemporalMemoryEntry) list
     \<Rightarrow> bool \<times> (string \<times> 'c TemporalMemoryEntry) list" where
  "associateTask memoryId taskId idx =
     (let change = (\<lambda>e.
            if taskId \<in> set (associatedTasks e) then e
            else e\<lparr>associatedTasks := associatedTasks e @ [taskId]\<rparr>)
      in case map_of idx memoryId of
           None \<Rightarrow> (False, idx)
         | Some _ \<Rightarrow>
             (True, map (\<lambda>kv. if fst kv = memoryId then (fst kv, change (snd kv)) else kv) idx))"

definition removeEntry ::
  "string \<Rightarrow> (string \<times> 'c TemporalMemoryEntry) list
     \<Rightarrow> bool \<times> (string \<times> 'c TemporalMemoryEntry) list" where
  "removeEntry eid idx =
     (case map_of idx eid of None \<Rightarrow> (False, idx) | Some _ \<Rightarrow> (True, obj_delete idx eid))"

text \<open>
  \<open>prune(options)\<close>, with the defaults 90 and 0: the test \<open>shouldPrune\<close> on the stored
  entry, the number of entries removed and the new index.
\<close>

definition shouldPrune :: "real \<Rightarrow> int \<Rightarrow> 'c TemporalMemoryEntry \<Rightarrow> bool" where
  "shouldPrune cutoff minAccessCount entry =
     ((m_timestamp entry < cutoff \<and> accessCount entry \<le> minAccessCount) \<or>
      (decayScore entry < 1 / 10 \<and> accessCount entry \<le> minAccessCount))"

definition prune ::
  "real \<Rightarrow> real option \<Rightarrow> int option \<Rightarrow> (string \<times> 'c TemporalMemoryEntry) list
     \<Rightarrow> nat \<times> (string \<times> 'c TemporalMemoryEntry) list" where
  "prune now maxAgeDaysOpt minAccessCountOpt idx =
     (let maxAgeDays' = (case maxAgeDaysOpt of None \<Rightarrow> 90 | Some d \<Rightarrow> d);
          minAccessCount = (case minAccessCountOpt of None \<Rightarrow> 0 | Some c \<Rightarrow> c);
          cutoff = now - maxAgeDays' * MS_PER_DAY;
          kept = filter (\<lambda>kv. \<not> shouldPrune cutoff minAccessCount (snd kv)) idx
      in (length idx - length kept, kept))"

text \<open>
  A well-formed index, as \<open>addEntry\<close> builds it: distinct keys, each the \<open>id\<close> of its
  entry.
\<close>

definition index_wf :: "(string \<times> 'c TemporalMemoryEntry) list \<Rightarrow> bool" where
  "index_wf idx = (distinct (map fst idx) \<and> list_all (\<lambda>kv. m_id (snd kv) = fst kv) idx)"

text \<open>The access bookkeeping of one entry: what \<open>search\<close> and \<open>getEntry\<close> do to it.\<close>

definition touch :: "real \<Rightarrow> 'c TemporalMemoryEntry \<Rightarrow> 'c TemporalMemoryEntry" where
  "touch now e = e\<lparr>accessCount := accessCount e + 1, lastAccessedAt := now\<rparr>"

text \<open>
  Two versions of an entry that agree on every field but \<open>accessCount\<close> and
  \<open>lastAccessedAt\<close>.
\<close>

definition access_frame :: "'c TemporalMemoryEntry \<Rightarrow> 'c TemporalMemoryEntry \<Rightarrow> bool" where
  "access_frame e e' =
     (m_id e' = m_id e \<and> content e' = content e \<and> m_timestamp e' = m_timestamp e \<and>
      decayScore e' = decayScore e \<and> relevanceScore e' = relevanceScore e \<and>
      temporalContext e' = temporalContext e \<and> associatedTasks e' = associatedTasks e)"

text \<open>Every stored decay score is the 1.0 that \<open>addEntry\<close> assigns.\<close>

definition fresh_decay :: "(string \<times> 'c TemporalMemoryEntry) list \<Rightarrow> bool" where
  "fresh_decay idx = list_all (\<lambda>kv. decayScore (snd kv) = 1) idx"

text \<open>
  A call of the memory manager's interface with its arguments, and the effect of a call
  made at the time \<open>now\<close> on the index.
\<close>

datatype 'c MemoryCall =
  AddEntry string string "'c option"
  | Search string MemorySearchOptions
  | GetEntry string
  | UpdateEntry string "string option" "string list option"
  | AssociateTask string string
  | RemoveEntry string
  | Prune "real option" "int option"

fun memory_call ::
  "TemporalMemoryConfig \<Rightarrow> real \<Rightarrow> 'c MemoryCall \<Rightarrow> (string \<times> 'c TemporalMemoryEntry) list
     \<Rightarrow> (string \<times> 'c TemporalMemoryEntry) list" where
  "memory_call cfg now (AddEntry newId content' ctx) idx =
     snd (addEntry cfg now newId content' ctx idx)"
| "memory_call cfg now (Search query options) idx = snd (search cfg now query options idx)"
| "memory_call cfg now (GetEntry eid) idx = snd (getEntry now eid idx)"
| "memory_call cfg now (UpdateEntry eid newContent newTasks) idx =
     snd (updateEntry eid newContent newTasks idx)"
| "memory_call cfg now (AssociateTask memoryId taskId) idx = snd (associateTask memoryId taskId idx)"
| "memory_call cfg now (RemoveEntry eid) idx = snd (removeEntry eid idx)"
| "memory_call cfg now (Prune maxAgeDaysOpt minAccessCountOpt) idx =
     snd (prune now maxAgeDaysOpt minAccessCountOpt idx)"

fun memory_run ::
  "TemporalMemoryConfig \<Rightarrow> (real \<times> 'c MemoryCall) list \<Rightarrow> (string \<times> 'c TemporalMemoryEntry) list
     \<Rightarrow> (string \<times> 'c TemporalMemoryEntry) list" where
  "memory_run cfg [] idx = idx"
| "memory_run cfg ((now, c) # cs) idx = memory_run cfg cs (memory_call cfg now c idx)"

text \<open>
  The value of \<open>calculateConfidence\<close> written as a function of the number \<open>n\<close> of
  relevant entries, the minimum sample count \<open>m\<close> and the weighted accuracy \<open>wa\<close>
  (used in the proofs only).
\<close>

definition conf_form :: "nat \<Rightarrow> real \<Rightarrow> real \<Rightarrow> real" where
  "conf_form n m wa =
     (if n = 0 then 3 / 10
      else if real n < m then 3 / 10 + (real n / m) * (2 / 10)
      else min (95 / 100) (1 / 2 + wa * (3 / 10) + min (2 / 10) (real n * (2 / 100))))"

text \<open>
  The weight that \<open>calculateConfidence\<close> gives at the time \<open>now\<close> to an entry stamped
  \<open>ts\<close>, when the decay period \<open>d\<close> is positive and the entry is not stamped in the
  future (used in the proofs only).
\<close>

definition weight_at :: "real \<Rightarrow> real \<Rightarrow> real \<Rightarrow> real" where
  "weight_at now d ts =
     (if 1075 * ln 2 \<le> (now - ts) / MS_PER_DAY / d then 0
      else exp (- ((now - ts) / MS_PER_DAY) / d))"

text \<open>The bound on a stored priority.\<close>

definition priority_ok :: "ScheduledTask \<Rightarrow> bool" where
  "priority_ok t = (0 \<le> priority t \<and> priority t \<le> 100)"

section \<open>Concrete inputs used in the examples\<close>

definition exampleEstimate :: DurationEstimate where
  "exampleEstimate =
     \<lparr>minimumMs = Some 400000, expectedMs = 600000, maximumMs = Some 900000,
      confidence = Fin (3 / 10), basedOnSamples = 0, d_category = coding,
      d_complexity = moderate\<rparr>"

definition exampleInput :: "string \<Rightarrow> real \<Rightarrow> real \<Rightarrow> AddTaskInput" where
  "exampleInput t u i =
     \<lparr>i_title = t, i_description = None, i_deadline = None,
      i_estimatedDuration = exampleEstimate, i_urgency = u, i_importance = i, i_tags = [],
      i_channel = None, i_sessionId = None\<rparr>"

definition urgencyUpdate :: "real \<Rightarrow> TaskUpdates" where
  "urgencyUpdate u =
     \<lparr>u_urgency = Some u, u_importance = None, u_deadline = None,
      u_title = None, u_description = None, u_tags = None\<rparr>"

text \<open>The same inputs for the scheduler on numbers with the special values.\<close>

definition exampleEstimate_num :: DurationEstimate_num where
  "exampleEstimate_num =
     \<lparr>n_minimumMs = Fin 400000, n_expectedMs = Fin 600000, n_maximumMs = Fin 900000,
      n_confidence = Fin (3 / 10), n_basedOnSamples = 0, n_category = coding,
      n_complexity = moderate\<rparr>"

definition exampleInput_num :: "string \<Rightarrow> number option \<Rightarrow> number option \<Rightarrow> AddTaskInput_num" where
  "exampleInput_num t u i =
     \<lparr>ni_title = t, ni_description = None, ni_deadline = None,
      ni_estimatedDuration = exampleEstimate_num, ni_urgency = u, ni_importance = i,
      ni_tags = [], ni_channel = None, ni_sessionId = None\<rparr>"

definition urgencyUpdate_num :: "number option \<Rightarrow> TaskUpdates_num" where
  "urgencyUpdate_num u =
     \<lparr>nu_urgency = Some u, nu_importance = None, nu_deadline = None,
      nu_title = None, nu_description = None, nu_tags = None\<rparr>"

text \<open>
  Two tasks are added, the first with the lower priority, and the first is then raised
  to the urgency of the second.
\<close>

definition exampleCalls :: "(real \<times> SchedulerCall) list" where
  "exampleCalls =
     [(1000, AddTask ''A'' (exampleInput ''first'' 10 50)),
      (2000, AddTask ''B'' (exampleInput ''second'' 90 50)),
      (3000, UpdateTask ''A'' (urgencyUpdate 90))]"

text \<open>Two tasks being timed, and a history of eight completions with accuracy 1.\<close>

definition exampleActiveA :: ActiveTask where
  "exampleActiveA =
     \<lparr>a_taskId = ''task_a'', a_category = coding, a_complexity = moderate,
      startTime = 1000, a_estimatedMs = 600000\<rparr>"

definition exampleActiveB :: ActiveTask where
  "exampleActiveB =
     \<lparr>a_taskId = ''task_b'', a_category = coding, a_complexity = moderate,
      startTime = 2000, a_estimatedMs = 600000\<rparr>"

definition exampleEstimatorState :: EstimatorState where
  "exampleEstimatorState =
     \<lparr>taskHistory = [], activeTasks = [(''task_a'', exampleActiveA), (''task_b'', exampleActiveB)],
      learnedBaselines = Map.empty, sessionTag = ''session_0''\<rparr>"




text \<open>
  The estimator's initial state, and the state after two tasks of the pair (coding,
  moderate) have each been started and completed at one clock reading.
\<close>

definition initialEstimatorState :: EstimatorState where
  "initialEstimatorState =
     \<lparr>taskHistory = [], activeTasks = [], learnedBaselines = Map.empty, sessionTag = ''session_0''\<rparr>"

definition instantCompletions :: EstimatorState where
  "instantCompletions =
     (let s1 = snd (startTask defaultEstimatorConfig 1000 ''task_a'' coding moderate initialEstimatorState);
          s2 = snd (projr (completeTask defaultEstimatorConfig 1000 (Some ''task_a'') s1));
          s3 = snd (startTask defaultEstimatorConfig 2000 ''task_b'' coding moderate s2);
          s4 = snd (projr (completeTask defaultEstimatorConfig 2000 (Some ''task_b'') s3))
      in s4)"

text \<open>Two memories, the second one about a scheduler, and a search without options.\<close>

definition exampleMemoryCalls :: "(real \<times> unit MemoryCall) list" where
  "exampleMemoryCalls =
     [(1000, AddEntry ''0b0b'' ''Lunch menu ideas'' None),
      (5000, AddEntry ''0a0a'' ''Deploy the Scheduler-service!'' None)]"

definition exampleIndex :: "(string \<times> unit TemporalMemoryEntry) list" where
  "exampleIndex = memory_run defaultMemoryConfig exampleMemoryCalls []"

definition exampleOptions :: MemorySearchOptions where
  "exampleOptions = \<lparr>maxAgeDays = None, limit = None, minRelevance = None\<rparr>"

section \<open>Properties of the pure utilities\<close>

subsection \<open>Numbers\<close>

lemma overflow_bound_big: "1000000 \<le> overflow_bound"
  by (simp add: overflow_bound_def)

lemma num_norm_Fin: "\<bar>r\<bar> < overflow_bound \<Longrightarrow> num_norm r = Fin r"
  by (auto simp: num_norm_def)

lemma ln2_bounds: "1 / 2 < ln (2::real)" "1075 * ln (2::real) \<le> 800" "700 < 1075 * ln (2::real)"
proof -
  have e: "exp (1 / 2 :: real) * exp (1 / 2) = exp 1" by (simp add: exp_add [symmetric])
  have e1: "exp (1::real) \<le> 3" by (rule exp_le)
  have "exp (1 / 2 :: real) < 2"
  proof (rule ccontr)
    assume "\<not> exp (1 / 2 :: real) < 2"
    then have "2 \<le> exp (1 / 2 :: real)" by simp
    then have "2 * 2 \<le> exp (1 / 2 :: real) * exp (1 / 2)" by (intro mult_mono) simp_all
    then show False using e e1 by simp
  qed
  then have "exp (1 / 2 :: real) < exp (ln 2)" by simp
  then show "1 / 2 < ln (2::real)" by (simp only: exp_less_cancel_iff)
  have "1 + (32 / 43) + (32 / 43)\<^sup>2 / 2 \<le> exp (32 / 43 :: real)"
    by (rule exp_lower_Taylor_quadratic) simp
  then have "exp (ln (2::real)) \<le> exp (32 / 43)" by (simp add: power2_eq_square)
  then have "ln (2::real) \<le> 32 / 43" by (simp only: exp_le_cancel_iff)
  then show "1075 * ln (2::real) \<le> 800" by simp
  have "1 + - (7 / 172) \<le> exp (- (7 / 172) :: real)" by (rule exp_ge_add_one_self)
  then have "165 / 172 \<le> 1 / exp (7 / 172 :: real)" by (simp add: exp_minus inverse_eq_divide)
  then have "exp (7 / 172 :: real) * (165 / 172) \<le> 1" by (simp add: pos_le_divide_eq mult.commute)
  then have small: "exp (7 / 172 :: real) \<le> 172 / 165" by simp
  have "exp (28 / 43 :: real) = exp (7 / 172) ^ 16"
    by (simp add: exp_of_nat_mult [symmetric])
  also have "\<dots> \<le> (172 / 165) ^ 16"
    using small by (intro power_mono) simp_all
  also have "\<dots> < 2" by (simp add: power_divide)
  finally have "exp (28 / 43 :: real) < exp (ln 2)" by simp
  then have "28 / 43 < ln (2::real)" by (simp only: exp_less_cancel_iff)
  then show "700 < 1075 * ln (2::real)" by simp
qed

subsection \<open>calculateAccuracy\<close>

lemma calculateAccuracy_over:
  "actual \<noteq> 0 \<Longrightarrow> 1 \<le> est / actual \<Longrightarrow>
     calculateAccuracy est actual = max 0 (1 - (est / actual - 1) * (1 / 2))"
  by (simp add: calculateAccuracy_def)

lemma calculateAccuracy_under:
  "actual \<noteq> 0 \<Longrightarrow> est / actual < 1 \<Longrightarrow> calculateAccuracy est actual = max 0 (est / actual)"
  by (simp add: calculateAccuracy_def)

lemma calculateAccuracy_range: "0 \<le> calculateAccuracy est actual \<and> calculateAccuracy est actual \<le> 1"
  by (simp add: calculateAccuracy_def Let_def)




subsection \<open>exponentialDecay\<close>



lemma Math_pow_half_mid:
  "x < 1075 \<Longrightarrow> x < 0 \<or> 1 / 2 ^ 54 < x \<Longrightarrow> Math_pow_half x = (1 / 2) powr x"
  by (auto simp: Math_pow_half_def)








section \<open>Properties of the priority scheduler\<close>

lemmas scheduler_example_defs =
  addTask_def updateTask_def getTaskList_def refreshPriorities_def refreshTask_def
  sortTasks_def calculatePriority_def defaultSchedulerConfig_def exampleEstimate_def
  exampleInput_def urgencyUpdate_def exampleCalls_def assignUpdates_def Let_def
  MS_PER_DAY_def MS_PER_HOUR_def Math_round_def

subsection \<open>The priority of the specification's scenario\<close>

text \<open>
  C1 (as stated, refuted): with urgency 90, importance 80, no deadline, an expected
  duration of 600000 ms and the default weights, the priority of the task that
  \<open>addTask\<close> returns is not 79.
\<close>

theorem addTask_scenario_not_79:
  "priority (fst (addTask defaultSchedulerConfig 1000 ''sched_1000_a''
      (exampleInput ''task'' 90 80) [])) \<noteq> 79"
  by (simp add: scheduler_example_defs)

text \<open>
  C1 (amended): with urgency 90, importance 80, no deadline, an expected duration of
  600000 ms and the default weights, the weighted score is
  \<open>(0.36 + 0.24 + (1 - 1/144) * 0.2 + 0.05) * 100\<close>, about 84.86, and the task that
  \<open>addTask\<close> returns has priority 85, whatever the clock, the other input fields and
  the tasks already stored. No half-way case arises.
\<close>

theorem addTask_scenario_priority:
  "priority (fst (addTask defaultSchedulerConfig now newId
      (input\<lparr>i_urgency := 90, i_importance := 80, i_deadline := None,
             i_estimatedDuration := est\<lparr>expectedMs := 600000\<rparr>\<rparr>) tasks)) = 85"
  by (simp add: addTask_def calculatePriority_def defaultSchedulerConfig_def Let_def
      MS_PER_DAY_def Math_round_def)

subsection \<open>Priority bounds on finite inputs\<close>

text \<open>
  On finite inputs the clamp keeps every priority within [0, 100], whatever the
  urgency, the importance, the expected duration, the deadline and the weights.
\<close>

lemma Math_round_range:
  "0 \<le> x \<Longrightarrow> x \<le> 100 \<Longrightarrow> 0 \<le> Math_round x \<and> Math_round x \<le> 100"
  unfolding Math_round_def by (simp add: floor_le_iff le_floor_iff)

lemma calculatePriority_range:
  "0 \<le> calculatePriority cfg now task \<and> calculatePriority cfg now task \<le> 100"
  unfolding calculatePriority_def Let_def
  by (rule Math_round_range) simp_all

lemma list_all_update_first:
  "list_all Q xs \<Longrightarrow> (\<And>x. x \<in> set xs \<Longrightarrow> Q (f x)) \<Longrightarrow> list_all Q (update_first P f xs)"
  by (induction xs) auto

lemma list_all_remove_first: "list_all Q xs \<Longrightarrow> list_all Q (remove_first P xs)"
  by (induction xs) auto

lemma list_all_sortTasks: "list_all Q (sortTasks xs) = list_all Q xs"
  by (simp add: list_all_iff sortTasks_def)

lemma addTask_ok:
  "list_all priority_ok tasks \<Longrightarrow> list_all priority_ok (snd (addTask cfg now newId input tasks))"
  by (simp add: addTask_def Let_def list_all_sortTasks priority_ok_def calculatePriority_range)

lemma updateTask_ok:
  "list_all priority_ok tasks \<Longrightarrow>
     list_all priority_ok (snd (updateTask cfg now taskId updates tasks))"
  by (auto simp: updateTask_def Let_def list_all_sortTasks priority_ok_def
      calculatePriority_range split: option.splits intro!: list_all_update_first)

lemma updateTaskStatus_ok:
  "list_all priority_ok tasks \<Longrightarrow>
     list_all priority_ok (snd (updateTaskStatus now taskId st tasks))"
proof -
  assume ok: "list_all priority_ok tasks"
  then have each: "\<And>t. t \<in> set tasks \<Longrightarrow> priority_ok t"
    by (simp add: list_all_iff)
  have "list_all priority_ok (update_first P
          (\<lambda>t. if st = completed
                then t\<lparr>status := st, updatedAt := now, completedAt := Some now\<rparr>
                else t\<lparr>status := st, updatedAt := now\<rparr>) tasks)" for P
    by (rule list_all_update_first [OF ok]) (insert each, simp add: priority_ok_def)
  then show ?thesis
    using ok by (simp add: updateTaskStatus_def Let_def split: option.splits)
qed

lemma refreshTask_ok: "priority_ok t \<Longrightarrow> priority_ok (refreshTask cfg now t)"
  by (simp add: refreshTask_def priority_ok_def calculatePriority_range)

lemma refreshPriorities_ok:
  "list_all priority_ok tasks \<Longrightarrow> list_all priority_ok (refreshPriorities cfg now tasks)"
  by (simp add: refreshPriorities_def list_all_sortTasks) (simp add: list_all_iff refreshTask_ok)

lemma getNextTask_ok:
  "list_all priority_ok tasks \<Longrightarrow> list_all priority_ok (snd (getNextTask cfg now tasks))"
  by (simp add: getNextTask_def Let_def refreshPriorities_ok)

lemma getTaskList_ok:
  "list_all priority_ok tasks \<Longrightarrow> list_all priority_ok (snd (getTaskList cfg now tasks))"
  by (simp add: getTaskList_def Let_def refreshPriorities_ok)

lemma removeTask_ok:
  "list_all priority_ok tasks \<Longrightarrow> list_all priority_ok (snd (removeTask taskId tasks))"
  by (simp add: removeTask_def list_all_remove_first split: option.splits)

lemma cleanupOldTasks_ok:
  "list_all priority_ok tasks \<Longrightarrow> list_all priority_ok (snd (cleanupOldTasks now d tasks))"
  by (simp add: cleanupOldTasks_def Let_def list_all_iff)

lemma scheduler_call_ok:
  "list_all priority_ok tasks \<Longrightarrow> list_all priority_ok (scheduler_call cfg now c tasks)"
  by (cases c)
    (simp_all add: addTask_ok updateTask_ok updateTaskStatus_ok getNextTask_ok getTaskList_ok
      removeTask_ok cleanupOldTasks_ok)

lemma scheduler_run_ok:
  "list_all priority_ok tasks \<Longrightarrow> list_all priority_ok (scheduler_run cfg cs tasks)"
  by (induction cs arbitrary: tasks) (auto simp: scheduler_call_ok)

subsection \<open>The order of getTaskList\<close>




section \<open>Properties of the scheduler on numbers with the special values\<close>

lemma num_norm_not_NaN: "num_norm r \<noteq> NaN"
  by (simp add: num_norm_def)

lemma num_add_Fin_not_NaN: "a \<noteq> NaN \<Longrightarrow> num_add a (Fin b) \<noteq> NaN"
  by (cases a) (simp_all add: num_norm_not_NaN)

lemma num_mul_100_not_NaN: "a \<noteq> NaN \<Longrightarrow> num_mul a (Fin 100) \<noteq> NaN"
  by (cases a) (simp_all add: num_norm_not_NaN inf_of_sign_def)

lemma clamp_in_range:
  "x \<noteq> NaN \<Longrightarrow> in_range (Math_round_num (Math_min (Fin 100) (Math_max (Fin 0) x)))"
proof (cases x)
  case (Fin r)
  have "0 \<le> Math_round (min 100 (max 0 r)) \<and> Math_round (min 100 (max 0 r)) \<le> 100"
    by (rule Math_round_range) simp_all
  then show ?thesis using Fin by (simp add: in_range_def)
next
  case PInf
  then show ?thesis by (simp add: in_range_def Math_round_def)
next
  case NInf
  then show ?thesis by (simp add: in_range_def Math_round_def)
next
  case NaN
  assume "x \<noteq> NaN"
  then show ?thesis using NaN by simp
qed

lemma clamp_NaN: "Math_round_num (Math_min (Fin 100) (Math_max (Fin 0) NaN)) = NaN"
  by simp

lemma calculatePriority_num_cases:
  "calculatePriority_num cfg now task = NaN \<or> in_range (calculatePriority_num cfg now task)"
proof -
  have "Math_round_num (Math_min (Fin 100) (Math_max (Fin 0) x)) = NaN \<or>
      in_range (Math_round_num (Math_min (Fin 100) (Math_max (Fin 0) x)))" for x
    using clamp_in_range [of x] clamp_NaN by (cases "x = NaN") simp_all
  then show ?thesis by (simp add: calculatePriority_num_def Let_def)
qed

lemma num_mul_weight:
  assumes "\<bar>a\<bar> < overflow_bound" "weight_ok w"
  shows "\<exists>r. num_mul (Fin a) w = Fin r"
proof -
  obtain v where w: "w = Fin v" "\<bar>v\<bar> \<le> 1"
    using assms(2) by (cases w) (simp_all add: weight_ok_def)
  have "\<bar>a * v\<bar> = \<bar>a\<bar> * \<bar>v\<bar>" by (rule abs_mult)
  also have "\<dots> \<le> \<bar>a\<bar> * 1" using w(2) by (intro mult_left_mono) simp_all
  finally have "\<bar>a * v\<bar> < overflow_bound" using assms(1) by linarith
  then show ?thesis using w(1) by (simp add: num_norm_Fin)
qed

lemma calculatePriority_num_finite:
  assumes w: "weights_ok cfg" and t: "finite_task task"
  shows "in_range (calculatePriority_num cfg now task)"
proof -
  obtain u where u: "to_number (n_urgency task) = Fin u" "\<bar>u\<bar> < overflow_bound"
    using t by (cases "to_number (n_urgency task)") (simp_all add: finite_task_def is_double_def)
  obtain i where i: "to_number (n_importance task) = Fin i" "\<bar>i\<bar> < overflow_bound"
    using t by (cases "to_number (n_importance task)") (simp_all add: finite_task_def is_double_def)
  obtain e where e: "n_expectedMs (n_estimatedDuration task) = Fin e" "\<bar>e\<bar> < overflow_bound"
    using t by (cases "n_expectedMs (n_estimatedDuration task)") (simp_all add: finite_task_def is_double_def)
  have big: "1000000 \<le> overflow_bound" by (rule overflow_bound_big)
  have us: "num_div (Fin u) (Fin 100) = Fin (u / 100)"
    using u(2) by (simp add: num_norm_Fin)
  have imps: "num_div (Fin i) (Fin 100) = Fin (i / 100)"
    using i(2) by (simp add: num_norm_Fin)
  have "\<bar>e / MS_PER_DAY\<bar> \<le> \<bar>e\<bar>" by (simp add: MS_PER_DAY_def)
  then have eq: "\<bar>e / MS_PER_DAY\<bar> < overflow_bound" using e(2) by linarith
  have ed: "num_div (Fin e) (Fin MS_PER_DAY) = Fin (e / MS_PER_DAY)"
    using eq by (simp add: num_norm_Fin MS_PER_DAY_def)
  define ef where "ef = 1 - min 1 (e / MS_PER_DAY)"
  have ef_abs: "\<bar>ef\<bar> \<le> 1 + \<bar>e\<bar> / 86400000"
    by (simp add: ef_def MS_PER_DAY_def min_def abs_if)
  have "\<bar>e\<bar> / 86400000 \<le> \<bar>e\<bar> / 2" by simp
  then have ef100: "\<bar>ef\<bar> < overflow_bound"
    using ef_abs e(2) big by linarith
  have efs: "num_sub (Fin 1) (Math_min (Fin 1) (num_div (Fin e) (Fin MS_PER_DAY))) = Fin ef"
  proof -
    have "num_norm (1 - min 1 (e / MS_PER_DAY)) = Fin ef"
      using num_norm_Fin [OF ef100] by (simp add: ef_def)
    then show ?thesis unfolding ed by (simp add: num_sub_def)
  qed
  have "\<bar>u / 100\<bar> \<le> \<bar>u\<bar>" by simp
  then have u100: "\<bar>u / 100\<bar> < overflow_bound" using u(2) by linarith
  have "\<bar>i / 100\<bar> \<le> \<bar>i\<bar>" by simp
  then have i100: "\<bar>i / 100\<bar> < overflow_bound" using i(2) by linarith
  obtain t1 where t1: "num_mul (Fin (u / 100)) (n_urgencyWeight cfg) = Fin t1"
    using num_mul_weight [OF u100, of "n_urgencyWeight cfg"] w
    by (auto simp: weights_ok_def)
  obtain t2 where t2: "num_mul (Fin (i / 100)) (n_importanceWeight cfg) = Fin t2"
    using num_mul_weight [OF i100, of "n_importanceWeight cfg"] w
    by (auto simp: weights_ok_def)
  obtain t3 where t3: "num_mul (Fin ef) (n_effortWeight cfg) = Fin t3"
    using num_mul_weight [OF ef100, of "n_effortWeight cfg"] w
    by (auto simp: weights_ok_def)
  have t4: "\<exists>t4. num_mul (Fin ds) (n_deadlineProximityWeight cfg) = Fin t4"
    if "\<bar>ds\<bar> \<le> 1" for ds
  proof -
    have "\<bar>ds\<bar> < overflow_bound" using that big by linarith
    then show ?thesis
      using num_mul_weight [of ds "n_deadlineProximityWeight cfg"] w by (simp add: weights_ok_def)
  qed
  have sum: "num_mul (num_add (num_add (num_add (Fin t1) (Fin t2)) (Fin t3)) (Fin t4)) (Fin 100) \<noteq> NaN"
    for t4
    by (intro num_mul_100_not_NaN num_add_Fin_not_NaN) (simp add: num_norm_not_NaN)
  have fin: "in_range (Math_round_num (Math_min (Fin 100) (Math_max (Fin 0)
        (num_mul (num_add (num_add (num_add (Fin t1) (Fin t2)) (Fin t3))
           (num_mul (Fin ds) (n_deadlineProximityWeight cfg))) (Fin 100)))))"
    if ds: "\<bar>ds\<bar> \<le> 1" for ds
  proof -
    obtain v where "num_mul (Fin ds) (n_deadlineProximityWeight cfg) = Fin v"
      using t4 [OF ds] by blast
    then show ?thesis using clamp_in_range [OF sum [of v]] by simp
  qed
  show ?thesis
    unfolding calculatePriority_num_def Let_def u(1) i(1) e(1) us imps efs t1 t2 t3
    by (intro fin) (simp split: if_splits)
qed

lemma set_insert_sorted: "set (insert_sorted cmp x ys) = insert x (set ys)"
  by (induction ys) auto

lemma set_sort_with: "set (sort_with cmp xs) = set xs"
  by (induction xs) (simp_all add: sort_with_def set_insert_sorted)

lemma list_all_sortTasks_num: "list_all Q (sortTasks_num xs) = list_all Q xs"
  by (simp add: list_all_iff sortTasks_num_def set_sort_with)

text \<open>
  On priorities within the bounds the comparator is a consistent ordering, and the sort
  is the stable sort by descending priority of the scheduler on finite inputs.
\<close>

lemma insert_sorted_insort_key:
  assumes "in_range (n_priority x)" "\<forall>t \<in> set ys. in_range (n_priority t)"
  shows "insert_sorted (\<lambda>a b. num_sub (n_priority b) (n_priority a)) x ys
     = insort_key (\<lambda>t. - num_value (n_priority t)) x ys"
  using assms(2)
proof (induction ys)
  case Nil
  then show ?case by simp
next
  case (Cons y ys)
  obtain px where px: "n_priority x = Fin px" "0 \<le> px" "px \<le> 100"
    using assms(1) by (cases "n_priority x") (simp_all add: in_range_def)
  obtain py where py: "n_priority y = Fin py" "0 \<le> py" "py \<le> 100"
    using Cons.prems by (cases "n_priority y") (simp_all add: in_range_def)
  have "\<bar>py - px\<bar> < overflow_bound" using px py overflow_bound_big by linarith
  then have "num_sub (n_priority y) (n_priority x) = Fin (py - px)"
    by (simp add: px py num_sub_def num_norm_Fin)
  then show ?case
    using Cons px(1) py(1) by (auto simp: num_value_def)
qed

lemma sortTasks_num_sort_key:
  "\<forall>t \<in> set tasks. in_range (n_priority t) \<Longrightarrow>
   sortTasks_num tasks = sort_key (\<lambda>t. - num_value (n_priority t)) tasks"
proof (induction tasks)
  case Nil
  then show ?case by (simp add: sortTasks_num_def sort_with_def)
next
  case (Cons x xs)
  have "sort_with (\<lambda>a b. num_sub (n_priority b) (n_priority a)) xs
      = sort_key (\<lambda>t. - num_value (n_priority t)) xs"
    using Cons by (simp add: sortTasks_num_def)
  moreover have "\<forall>t \<in> set (sort_key (\<lambda>t. - num_value (n_priority t)) xs). in_range (n_priority t)"
    using Cons.prems by simp
  ultimately show ?case
    using insert_sorted_insort_key [of x "sort_key (\<lambda>t. - num_value (n_priority t)) xs"] Cons.prems
    by (simp add: sortTasks_num_def sort_with_def sort_key_def)
qed

lemma addTask_num_ok:
  "list_all priority_ok_num tasks \<Longrightarrow>
   list_all priority_ok_num (snd (addTask_num cfg now newId input tasks))"
  using calculatePriority_num_cases
  by (simp add: addTask_num_def Let_def list_all_sortTasks_num priority_ok_num_def)

lemma updateTask_num_ok:
  "list_all priority_ok_num tasks \<Longrightarrow>
   list_all priority_ok_num (snd (updateTask_num cfg now taskId updates tasks))"
  using calculatePriority_num_cases
  by (auto simp: updateTask_num_def Let_def list_all_sortTasks_num priority_ok_num_def
      split: option.splits intro!: list_all_update_first)

lemma updateTaskStatus_num_ok:
  assumes ok: "list_all Q tasks"
    and keep: "\<And>t s u c. Q t \<Longrightarrow> Q (t\<lparr>n_status := s, n_updatedAt := u\<rparr>) \<and>
        Q (t\<lparr>n_status := s, n_updatedAt := u, n_completedAt := c\<rparr>)"
  shows "list_all Q (snd (updateTaskStatus_num now taskId st tasks))"
proof -
  have each: "\<And>t. t \<in> set tasks \<Longrightarrow> Q t"
    using ok by (simp add: list_all_iff)
  have "list_all Q (update_first P
          (\<lambda>t. if st = completed
                then t\<lparr>n_status := st, n_updatedAt := now, n_completedAt := Some now\<rparr>
                else t\<lparr>n_status := st, n_updatedAt := now\<rparr>) tasks)" for P
    by (rule list_all_update_first [OF ok]) (insert each keep, simp)
  then show ?thesis
    using ok by (simp add: updateTaskStatus_num_def Let_def split: option.splits)
qed

lemma refreshPriorities_num_ok:
  "list_all priority_ok_num tasks \<Longrightarrow>
   list_all priority_ok_num (refreshPriorities_num cfg now tasks)"
proof -
  assume ok: "list_all priority_ok_num tasks"
  have "priority_ok_num (refreshTask_num cfg now t)" if "priority_ok_num t" for t
    using that calculatePriority_num_cases [of cfg now t]
    by (simp add: refreshTask_num_def priority_ok_num_def)
  then have "list_all priority_ok_num (map (refreshTask_num cfg now) tasks)"
    using ok by (simp add: list_all_iff)
  then show ?thesis by (simp add: refreshPriorities_num_def list_all_sortTasks_num)
qed

lemma scheduler_call_num_ok:
  "list_all priority_ok_num tasks \<Longrightarrow>
   list_all priority_ok_num (scheduler_call_num cfg now c tasks)"
proof (cases c)
  case (AddTask_num newId input)
  assume "list_all priority_ok_num tasks"
  then show ?thesis using AddTask_num by (simp add: addTask_num_ok)
next
  case (UpdateTask_num taskId updates)
  assume "list_all priority_ok_num tasks"
  then show ?thesis using UpdateTask_num by (simp add: updateTask_num_ok)
next
  case (UpdateTaskStatus_num taskId st)
  assume ok: "list_all priority_ok_num tasks"
  have "list_all priority_ok_num (snd (updateTaskStatus_num now taskId st tasks))"
    by (rule updateTaskStatus_num_ok [OF ok]) (simp add: priority_ok_num_def)
  then show ?thesis using UpdateTaskStatus_num by simp
next
  case GetNextTask_num
  assume "list_all priority_ok_num tasks"
  then show ?thesis
    using GetNextTask_num by (simp add: getNextTask_num_def Let_def refreshPriorities_num_ok)
next
  case GetTaskList_num
  assume "list_all priority_ok_num tasks"
  then show ?thesis
    using GetTaskList_num by (simp add: getTaskList_num_def Let_def refreshPriorities_num_ok)
next
  case (RemoveTask_num taskId)
  assume "list_all priority_ok_num tasks"
  then show ?thesis
    using RemoveTask_num by (simp add: removeTask_num_def list_all_remove_first split: option.splits)
next
  case (CleanupOldTasks_num d)
  assume "list_all priority_ok_num tasks"
  then show ?thesis
    using CleanupOldTasks_num by (simp add: cleanupOldTasks_num_def Let_def list_all_iff)
qed

lemma scheduler_run_num_ok:
  "list_all priority_ok_num tasks \<Longrightarrow>
   list_all priority_ok_num (scheduler_run_num cfg cs tasks)"
  by (induction cs arbitrary: tasks) (auto simp: scheduler_call_num_ok)

lemma finite_ok_new:
  "weights_ok cfg \<Longrightarrow> finite_task t \<Longrightarrow>
   finite_ok (t\<lparr>n_priority := calculatePriority_num cfg now t\<rparr>)"
  using calculatePriority_num_finite [of cfg t now] by (simp add: finite_ok_def finite_task_def)

lemma finite_task_assignUpdates:
  "finite_task t \<Longrightarrow> finite_call (UpdateTask_num taskId updates) \<Longrightarrow>
   finite_task ((assignUpdates_num updates t)\<lparr>n_updatedAt := now\<rparr>)"
  by (auto simp: finite_task_def assignUpdates_num_def split: option.splits)

lemma scheduler_call_num_finite:
  assumes w: "weights_ok cfg" and c: "finite_call c" and ok: "list_all finite_ok tasks"
  shows "list_all finite_ok (scheduler_call_num cfg now c tasks)"
proof (cases c)
  case (AddTask_num newId input)
  let ?t0 = "\<lparr>n_id = newId, n_title = ni_title input, n_description = ni_description input,
             n_deadline = ni_deadline input, n_estimatedDuration = ni_estimatedDuration input,
             n_priority = Fin 0, n_urgency = ni_urgency input, n_importance = ni_importance input,
             n_status = pending, n_createdAt = now, n_updatedAt = now, n_completedAt = None,
             n_channel = ni_channel input, n_sessionId = ni_sessionId input,
             n_tags = ni_tags input\<rparr>"
  have "finite_task ?t0" using c AddTask_num by (simp add: finite_task_def)
  then have "finite_ok (?t0\<lparr>n_priority := calculatePriority_num cfg now ?t0\<rparr>)"
    by (rule finite_ok_new [OF w])
  then show ?thesis
    using ok AddTask_num by (simp add: addTask_num_def Let_def list_all_sortTasks_num)
next
  case (UpdateTask_num taskId updates)
  have each: "\<And>t. t \<in> set tasks \<Longrightarrow> finite_ok t"
    using ok by (simp add: list_all_iff)
  have "list_all finite_ok (update_first P
          (\<lambda>t. ((assignUpdates_num updates t)\<lparr>n_updatedAt := now\<rparr>)
                 \<lparr>n_priority := calculatePriority_num cfg now
                    ((assignUpdates_num updates t)\<lparr>n_updatedAt := now\<rparr>)\<rparr>) tasks)" for P
  proof (rule list_all_update_first [OF ok])
    fix t assume "t \<in> set tasks"
    then have "finite_task t" using each by (simp add: finite_ok_def)
    then have "finite_task ((assignUpdates_num updates t)\<lparr>n_updatedAt := now\<rparr>)"
      using c UpdateTask_num by (intro finite_task_assignUpdates) simp_all
    then show "finite_ok (((assignUpdates_num updates t)\<lparr>n_updatedAt := now\<rparr>)
                 \<lparr>n_priority := calculatePriority_num cfg now
                    ((assignUpdates_num updates t)\<lparr>n_updatedAt := now\<rparr>)\<rparr>)"
      by (rule finite_ok_new [OF w])
  qed
  then show ?thesis
    using ok UpdateTask_num
    by (simp add: updateTask_num_def Let_def list_all_sortTasks_num split: option.splits)
next
  case (UpdateTaskStatus_num taskId st)
  have "list_all finite_ok (snd (updateTaskStatus_num now taskId st tasks))"
    by (rule updateTaskStatus_num_ok [OF ok]) (simp add: finite_ok_def finite_task_def)
  then show ?thesis using UpdateTaskStatus_num by simp
next
  case GetNextTask_num
  have "list_all finite_ok (map (refreshTask_num cfg now) tasks)"
    using ok finite_ok_new [OF w]
    by (auto simp: list_all_iff refreshTask_num_def finite_ok_def)
  then show ?thesis
    using GetNextTask_num
    by (simp add: getNextTask_num_def Let_def refreshPriorities_num_def list_all_sortTasks_num)
next
  case GetTaskList_num
  have "list_all finite_ok (map (refreshTask_num cfg now) tasks)"
    using ok finite_ok_new [OF w]
    by (auto simp: list_all_iff refreshTask_num_def finite_ok_def)
  then show ?thesis
    using GetTaskList_num
    by (simp add: getTaskList_num_def Let_def refreshPriorities_num_def list_all_sortTasks_num)
next
  case (RemoveTask_num taskId)
  then show ?thesis
    using ok by (simp add: removeTask_num_def list_all_remove_first split: option.splits)
next
  case (CleanupOldTasks_num d)
  then show ?thesis
    using ok by (simp add: cleanupOldTasks_num_def Let_def list_all_iff)
qed

lemma scheduler_run_num_finite:
  "weights_ok cfg \<Longrightarrow> list_all (\<lambda>c. finite_call (snd c)) cs \<Longrightarrow> list_all finite_ok tasks \<Longrightarrow>
   list_all finite_ok (scheduler_run_num cfg cs tasks)"
  by (induction cs arbitrary: tasks) (auto simp: scheduler_call_num_finite)

lemmas scheduler_num_example_defs =
  addTask_num_def updateTask_num_def getTaskList_num_def refreshPriorities_num_def
  refreshTask_num_def sortTasks_num_def sort_with_def calculatePriority_num_def
  defaultSchedulerConfig_num_def exampleEstimate_num_def exampleInput_num_def
  urgencyUpdate_num_def assignUpdates_num_def to_number_def truthy_def num_sub_def
  num_norm_def overflow_bound_def inf_of_sign_def Let_def MS_PER_DAY_def MS_PER_HOUR_def
  Math_round_def

text \<open>
  C10 (as stated, refuted): a task added with the urgency NaN is stored with the
  priority NaN, and so is a task added with the urgency Infinity and the importance
  -Infinity; a stored task whose urgency \<open>updateTask\<close> sets to \<open>undefined\<close> gets
  the priority NaN. NaN is not in [0, 100]: \<open>Math.max\<close>, \<open>Math.min\<close> and
  \<open>Math.round\<close> return NaN for the argument NaN, so the clamp lets it through.
\<close>

theorem scheduler_priority_nan:
  "map n_priority (scheduler_run_num defaultSchedulerConfig_num
     [(1000, AddTask_num ''A'' (exampleInput_num ''first'' (Some NaN) (Some (Fin 50))))] []) = [NaN] \<and>
   map n_priority (scheduler_run_num defaultSchedulerConfig_num
     [(1000, AddTask_num ''A'' (exampleInput_num ''first'' (Some PInf) (Some NInf)))] []) = [NaN] \<and>
   map n_priority (scheduler_run_num defaultSchedulerConfig_num
     [(1000, AddTask_num ''A'' (exampleInput_num ''first'' (Some (Fin 90)) (Some (Fin 80)))),
      (2000, UpdateTask_num ''A'' (urgencyUpdate_num None))] []) = [NaN] \<and>
   \<not> in_range NaN"
  by (simp add: scheduler_num_example_defs in_range_def)

text \<open>
  C10 (amended): after every sequence of scheduler operations (\<open>addTask\<close>,
  \<open>updateTask\<close>, \<open>updateTaskStatus\<close>, \<open>getNextTask\<close>, \<open>getTaskList\<close>,
  \<open>cleanupOldTasks\<close>, and \<open>removeTask\<close> as well) on the empty collection the
  scheduler starts with, every stored task has a priority that is in [0, 100] or NaN.
  It is in [0, 100] when in every call the urgency, the importance and the expected
  duration are finite numbers, whatever their size and sign, and the weights have a
  magnitude of at most 1: the weighted score is then a number or an infinity, and the
  clamp brings it into [0, 100] before it is rounded.
\<close>

theorem scheduler_priority_bounds:
  "(\<forall>t \<in> set (scheduler_run_num cfg calls []). n_priority t = NaN \<or> in_range (n_priority t)) \<and>
   (weights_ok cfg \<and> list_all (\<lambda>c. finite_call (snd c)) calls \<longrightarrow>
      (\<forall>t \<in> set (scheduler_run_num cfg calls []). in_range (n_priority t)))"
proof -
  have a: "\<forall>t \<in> set (scheduler_run_num cfg calls []). n_priority t = NaN \<or> in_range (n_priority t)"
    using scheduler_run_num_ok [of "[]" cfg calls]
    by (simp add: list_all_iff priority_ok_num_def)
  have b: "\<forall>t \<in> set (scheduler_run_num cfg calls []). in_range (n_priority t)"
    if "weights_ok cfg" "list_all (\<lambda>c. finite_call (snd c)) calls"
    using scheduler_run_num_finite [OF that, of "[]"]
    by (simp add: list_all_iff finite_ok_def)
  show ?thesis using a b by blast
qed

theorem scheduler_priority_bounds_witness:
  "weights_ok defaultSchedulerConfig_num \<and>
   list_all (\<lambda>c. finite_call (snd c))
     [(1000, AddTask_num ''A'' (exampleInput_num ''first'' (Some (Fin 1000)) (Some (Fin (- 50))))),
      (2000, UpdateTask_num ''A'' (urgencyUpdate_num (Some (Fin (- 700))))),
      (3000, GetTaskList_num)] \<and>
   list_all (\<lambda>t. in_range (n_priority t))
     (scheduler_run_num defaultSchedulerConfig_num
        [(1000, AddTask_num ''A'' (exampleInput_num ''first'' (Some (Fin 1000)) (Some (Fin (- 50))))),
         (2000, UpdateTask_num ''A'' (urgencyUpdate_num (Some (Fin (- 700))))),
         (3000, GetTaskList_num)] [])"
proof -
  let ?calls = "[(1000, AddTask_num ''A'' (exampleInput_num ''first'' (Some (Fin 1000)) (Some (Fin (- 50))))),
      (2000, UpdateTask_num ''A'' (urgencyUpdate_num (Some (Fin (- 700))))),
      (3000, GetTaskList_num)]"
  have w: "weights_ok defaultSchedulerConfig_num"
    by (simp add: weights_ok_def weight_ok_def defaultSchedulerConfig_num_def)
  have c: "list_all (\<lambda>c. finite_call (snd c)) ?calls"
    by (simp add: exampleInput_num_def exampleEstimate_num_def urgencyUpdate_num_def is_double_def
        to_number_def overflow_bound_def)
  show ?thesis
    using w c scheduler_priority_bounds [of defaultSchedulerConfig_num ?calls]
    by (simp add: list_all_iff)
qed

text \<open>
  On finite inputs of moderate size the two readings of \<open>calculatePriority\<close> agree: the
  scheduler on reals is the scheduler on numbers restricted to such inputs.
\<close>

lemma overflow_bound_huge: "100000 * 10 ^ 300 \<le> overflow_bound"
  by (simp add: overflow_bound_def)

lemma abs_mult_weight: "\<bar>a::real\<bar> \<le> m \<Longrightarrow> \<bar>w\<bar> \<le> 100 \<Longrightarrow> \<bar>a * w\<bar> \<le> m * 100"
proof -
  assume a: "\<bar>a\<bar> \<le> m" and w: "\<bar>w\<bar> \<le> 100"
  have "\<bar>a * w\<bar> = \<bar>a\<bar> * \<bar>w\<bar>" by (rule abs_mult)
  also have "\<dots> \<le> m * 100" using a w by (intro mult_mono) simp_all
  finally show ?thesis .
qed

lemma to_number_Some: "to_number (Some v) = v"
  by (simp add: to_number_def)

lemma calculatePriority_num_real:
  assumes m: "moderate_task cfg now t"
  shows "calculatePriority_num (number_of_config cfg) now (number_of_task t)
     = Fin (real_of_int (calculatePriority cfg now t))"
proof -
  define M :: real where "M = 10 ^ 300"
  have M1: "1 \<le> M" by (simp add: M_def)
  have B: "100000 * M \<le> overflow_bound" unfolding M_def by (rule overflow_bound_huge)
  have fin: "num_norm r = Fin r" if "\<bar>r\<bar> \<le> 50000 * M" for r
    using that B M1 by (intro num_norm_Fin) linarith
  let ?u = "urgency t" and ?i = "importance t" and ?e = "expectedMs (estimatedDuration t)"
  let ?wu = "urgencyWeight cfg" and ?wi = "importanceWeight cfg"
  let ?we = "effortWeight cfg" and ?wd = "deadlineProximityWeight cfg"
  have u: "\<bar>?u\<bar> \<le> M" and i: "\<bar>?i\<bar> \<le> M" and e: "\<bar>?e\<bar> \<le> M"
    and wu: "\<bar>?wu\<bar> \<le> 100" and wi: "\<bar>?wi\<bar> \<le> 100" and we: "\<bar>?we\<bar> \<le> 100" and wd: "\<bar>?wd\<bar> \<le> 100"
    using m by (simp_all add: moderate_task_def M_def)
  define us where "us = ?u / 100"
  define imps where "imps = ?i / 100"
  define q where "q = ?e / MS_PER_DAY"
  define ef where "ef = 1 - min 1 q"
  define ds where "ds =
    (case deadline t of
       None \<Rightarrow> 1 / 2
     | Some d \<Rightarrow>
         if d = 0 then 1 / 2
         else if d - now \<le> 0 then 1
         else if d - now < ?e then 95 / 100
         else if d - now < MS_PER_HOUR then 9 / 10
         else if d - now < MS_PER_HOUR * 4 then 8 / 10
         else if d - now < MS_PER_DAY then 6 / 10
         else (3 / 10 :: real))"
  have ds_abs: "\<bar>ds\<bar> \<le> 1"
    by (simp add: ds_def split: option.splits)
  have us_abs: "\<bar>us\<bar> \<le> M" using u by (simp add: us_def)
  have imps_abs: "\<bar>imps\<bar> \<le> M" using i by (simp add: imps_def)
  have "\<bar>q\<bar> \<le> \<bar>?e\<bar>" by (simp add: q_def MS_PER_DAY_def)
  then have q_abs: "\<bar>q\<bar> \<le> M" using e by linarith
  have ef_abs: "\<bar>ef\<bar> \<le> 2 * M"
  proof -
    have "\<bar>min 1 q\<bar> \<le> M" using q_abs M1 by (simp add: min_def)
    then show ?thesis using M1 unfolding ef_def by linarith
  qed
  define t1 where "t1 = us * ?wu"
  define t2 where "t2 = imps * ?wi"
  define t3 where "t3 = ef * ?we"
  define t4 where "t4 = ds * ?wd"
  have t1: "\<bar>t1\<bar> \<le> M * 100" unfolding t1_def by (rule abs_mult_weight [OF us_abs wu])
  have t2: "\<bar>t2\<bar> \<le> M * 100" unfolding t2_def by (rule abs_mult_weight [OF imps_abs wi])
  have t3: "\<bar>t3\<bar> \<le> 2 * M * 100" unfolding t3_def by (rule abs_mult_weight [OF ef_abs we])
  have t4: "\<bar>t4\<bar> \<le> 1 * 100" unfolding t4_def by (rule abs_mult_weight [OF ds_abs wd])
  define total where "total = (t1 + t2 + t3 + t4) * 100"
  have s4: "\<bar>total\<bar> \<le> 50000 * M"
  proof -
    have sum: "\<bar>t1 + t2 + t3 + t4\<bar> \<le> 500 * M" using t1 t2 t3 t4 M1 by linarith
    have "\<bar>total\<bar> = \<bar>t1 + t2 + t3 + t4\<bar> * 100"
      unfolding total_def by (simp only: abs_mult abs_numeral)
    also have "\<dots> \<le> 500 * M * 100" using sum by (intro mult_right_mono) simp_all
    finally show ?thesis by simp
  qed
  have n_us: "num_div (Fin ?u) (Fin 100) = Fin us"
    using fin [of us] us_abs M1 by (simp add: us_def)
  have n_is: "num_div (Fin ?i) (Fin 100) = Fin imps"
    using fin [of imps] imps_abs M1 by (simp add: imps_def)
  have n_ed: "num_div (Fin ?e) (Fin MS_PER_DAY) = Fin q"
    using fin [of q] q_abs M1 by (simp add: q_def MS_PER_DAY_def)
  have "num_norm (1 - min 1 q) = Fin ef"
    using fin [of ef] ef_abs M1 by (simp add: ef_def)
  then have n_ef: "num_sub (Fin 1) (Math_min (Fin 1) (Fin q)) = Fin ef"
    by (simp add: num_sub_def)
  have n_t1: "num_mul (Fin us) (Fin ?wu) = Fin t1"
    using fin [of t1] t1 M1 by (simp add: t1_def)
  have n_t2: "num_mul (Fin imps) (Fin ?wi) = Fin t2"
    using fin [of t2] t2 M1 by (simp add: t2_def)
  have n_t3: "num_mul (Fin ef) (Fin ?we) = Fin t3"
    using fin [of t3] t3 M1 by (simp add: t3_def)
  have n_t4: "num_mul (Fin ds) (Fin ?wd) = Fin t4"
    using fin [of t4] t4 M1 by (simp add: t4_def)
  have n_s1: "num_add (Fin t1) (Fin t2) = Fin (t1 + t2)"
    using fin [of "t1 + t2"] t1 t2 M1 by simp
  have n_s2: "num_add (Fin (t1 + t2)) (Fin t3) = Fin (t1 + t2 + t3)"
    using fin [of "t1 + t2 + t3"] t1 t2 t3 M1 by simp
  have n_s3: "num_add (Fin (t1 + t2 + t3)) (Fin t4) = Fin (t1 + t2 + t3 + t4)"
    using fin [of "t1 + t2 + t3 + t4"] t1 t2 t3 t4 M1 by simp
  have n_s4: "num_mul (Fin (t1 + t2 + t3 + t4)) (Fin 100) = Fin total"
    using fin [of total] s4 by (simp add: total_def)
  let ?D = "map_option Fin (deadline t)"
  let ?T = "num_sub (to_number ?D) (Fin now)"
  have n_ds: "(if truthy ?D then
               if num_le ?T (Fin 0) then 1
               else if num_lt ?T (Fin ?e) then 95 / 100
               else if num_lt ?T (Fin MS_PER_HOUR) then 9 / 10
               else if num_lt ?T (Fin (MS_PER_HOUR * 4)) then 8 / 10
               else if num_lt ?T (Fin MS_PER_DAY) then 6 / 10
               else 3 / 10
             else 1 / 2) = ds"
  proof (cases "deadline t")
    case None
    then show ?thesis by (simp add: ds_def truthy_def)
  next
    case (Some d)
    then have "\<bar>d - now\<bar> \<le> M" using m by (simp add: moderate_task_def M_def)
    then have "num_norm (d - now) = Fin (d - now)" using fin [of "d - now"] M1 by simp
    then show ?thesis
      using Some by (simp add: ds_def truthy_def to_number_def num_sub_def)
  qed
  have real: "calculatePriority cfg now t = Math_round (min 100 (max 0 total))"
    unfolding calculatePriority_def Let_def total_def t1_def t2_def t3_def t4_def us_def
      imps_def ef_def q_def ds_def
    by (rule refl)
  have sel: "n_urgency (number_of_task t) = Some (Fin ?u)"
      "n_importance (number_of_task t) = Some (Fin ?i)"
      "n_expectedMs (n_estimatedDuration (number_of_task t)) = Fin ?e"
      "n_deadline (number_of_task t) = ?D"
      "n_urgencyWeight (number_of_config cfg) = Fin ?wu"
      "n_importanceWeight (number_of_config cfg) = Fin ?wi"
      "n_effortWeight (number_of_config cfg) = Fin ?we"
      "n_deadlineProximityWeight (number_of_config cfg) = Fin ?wd"
    by (simp_all add: number_of_task_def number_of_config_def number_of_estimate_def)
  have "calculatePriority_num (number_of_config cfg) now (number_of_task t)
      = Math_round_num (Math_min (Fin 100) (Math_max (Fin 0) (Fin total)))"
    unfolding calculatePriority_num_def Let_def sel to_number_Some
    by (simp only: n_us n_is n_ed n_ef n_t1 n_t2 n_t3 n_ds n_t4 n_s1 n_s2 n_s3 n_s4)
  then show ?thesis by (simp add: real)
qed

section \<open>Properties of the task time estimator\<close>

lemmas estimator_example_defs =
  exampleActiveA_def exampleActiveB_def exampleEstimatorState_def completeTask_def resolveTask_def
  obj_get_def OBJECT_PROTOTYPE_KEYS_def obj_delete_def obj_values_def pushHistory_def calculateAccuracy_def bayesianUpdate_def
  defaultEstimatorConfig_def Let_def

subsection \<open>completeTask with an explicit id\<close>

lemma map_of_last:
  "distinct (map fst kvs) \<Longrightarrow> kvs \<noteq> [] \<Longrightarrow> obj_delete kvs (fst (last kvs)) = butlast kvs"
proof (induction kvs)
  case Nil
  then show ?case by simp
next
  case (Cons kv kvs)
  show ?case
  proof (cases "kvs = []")
    case True
    then show ?thesis by (simp add: obj_delete_def)
  next
    case False
    have "fst (last kvs) \<in> set (map fst kvs)" using False by simp
    then have "fst kv \<noteq> fst (last kvs)" using Cons.prems(1) by (metis distinct.simps(2) list.simps(9))
    then show ?thesis using Cons False by (simp add: obj_delete_def)
  qed
qed

lemma active_wf_lookup:
  "active_wf active \<Longrightarrow> map_of active k = Some t \<Longrightarrow> a_taskId t = k \<and> k \<noteq> []"
  by (auto simp: active_wf_def list_all_iff dest!: map_of_SomeD)

lemma active_wf_last:
  "active_wf active \<Longrightarrow> active \<noteq> [] \<Longrightarrow> a_taskId (snd (last active)) = fst (last active)"
  by (auto simp: active_wf_def list_all_iff)

lemma resolveTask_found:
  "active_wf active \<Longrightarrow> map_of active k = Some t \<Longrightarrow>
     resolveTask (Some k) active = Inr (Some t, obj_delete active k)"
  using active_wf_lookup [of active k t] by (simp add: resolveTask_def obj_get_def)

lemma resolveTask_mostRecent:
  "active_wf active \<Longrightarrow> active \<noteq> [] \<Longrightarrow>
     (case obj_values active of
        [] \<Rightarrow> Inr (None, active)
      | v # vs \<Rightarrow> let task = last (v # vs) in Inr (Some task, obj_delete active (a_taskId task)))
     = (Inr (Some (snd (last active)), butlast active)
          :: NotATask + (ActiveTask option \<times> (string \<times> ActiveTask) list))"
  using active_wf_last [of active] map_of_last [of active]
  by (auto simp: obj_values_def active_wf_def last_map Let_def split: list.splits)

lemma resolveTask_fallback:
  "active_wf active \<Longrightarrow> obj_get active k = Absent \<Longrightarrow> active \<noteq> [] \<Longrightarrow>
     resolveTask (Some k) active = Inr (Some (snd (last active)), butlast active)"
  using resolveTask_mostRecent [of active] by (simp add: resolveTask_def Let_def)

lemma resolveTask_empty:
  "obj_get ([] :: (string \<times> ActiveTask) list) k = Absent \<Longrightarrow>
     resolveTask (Some k) [] = Inr (None, [])"
  by (simp add: resolveTask_def obj_values_def Let_def)

lemma resolveTask_inherited:
  "obj_get active k = Inherited \<Longrightarrow> resolveTask (Some k) active = Inl (InheritedMember k)"
  by (auto simp: resolveTask_def obj_get_def OBJECT_PROTOTYPE_KEYS_def Let_def
      split: option.splits if_splits)

text \<open>
  C2 (as stated, refuted): the tasks \<open>task_a\<close> and \<open>task_b\<close> are active and
  \<open>completeTask\<close> is called with the id \<open>task_c\<close>, which no active task has. The
  call does not return null: it returns the history entry of \<open>task_b\<close>, the task
  started last, and removes that task. And with no active task at all, the call with the
  id \<open>constructor\<close> does not return null either: the lookup finds the member that
  every object inherits under this name.
\<close>

theorem completeTask_unknown_id_completes_last:
  "map_option h_taskId
     (fst (projr (completeTask defaultEstimatorConfig 700000 (Some ''task_c'') exampleEstimatorState)))
     = Some ''task_b'' \<and>
   map fst (activeTasks
     (snd (projr (completeTask defaultEstimatorConfig 700000 (Some ''task_c'') exampleEstimatorState))))
     = [''task_a''] \<and>
   completeTask defaultEstimatorConfig 700000 (Some ''constructor'') initialEstimatorState
     = Inl (InheritedMember ''constructor'')"
  by (simp add: estimator_example_defs initialEstimatorState_def)

text \<open>
  C2 (amended): for every call of \<open>completeTask\<close> with an explicit id on well-formed
  active tasks: if an active task has that id, the returned entry records exactly that
  id and that task is removed from the active tasks. If the lookup of the id yields
  \<open>undefined\<close> (no active task has the id, and the id names no member inherited from
  \<open>Object.prototype\<close>) and there is some active task, the call falls back to the task
  started last (the last in insertion order): it returns that task's entry and removes
  that task. Only when there is no active task at all does such a call return null, and
  then the state is unchanged. For an id that no active task has and that names an
  inherited member, the call takes that member for the task.
\<close>

theorem completeTask_explicit_id:
  "active_wf (activeTasks s) \<Longrightarrow>
   (case obj_get (activeTasks s) taskId of
      Own task \<Rightarrow>
        (case completeTask cfg now (Some taskId) s of
           Inl member \<Rightarrow> False
         | Inr (entry, s') \<Rightarrow>
             map_option h_taskId entry = Some taskId \<and>
             activeTasks s' = obj_delete (activeTasks s) taskId)
    | Inherited \<Rightarrow> completeTask cfg now (Some taskId) s = Inl (InheritedMember taskId)
    | Absent \<Rightarrow>
        if activeTasks s = [] then completeTask cfg now (Some taskId) s = Inr (None, s)
        else
          (case completeTask cfg now (Some taskId) s of
             Inl member \<Rightarrow> False
           | Inr (entry, s') \<Rightarrow>
               map_option h_taskId entry = Some (fst (last (activeTasks s))) \<and>
               activeTasks s' = butlast (activeTasks s)))"
proof -
  assume wf: "active_wf (activeTasks s)"
  show ?thesis
  proof (cases "obj_get (activeTasks s) taskId")
    case (Own task)
    then have m: "map_of (activeTasks s) taskId = Some task"
      by (auto simp: obj_get_def split: option.splits if_splits)
    show ?thesis
      using Own resolveTask_found [OF wf m] active_wf_lookup [OF wf m]
      by (simp add: completeTask_def Let_def)
  next
    case Inherited
    then show ?thesis
      using resolveTask_inherited [OF Inherited] by (simp add: completeTask_def)
  next
    case Absent
    show ?thesis
    proof (cases "activeTasks s = []")
      case True
      have "obj_get ([] :: (string \<times> ActiveTask) list) taskId = Absent" using Absent True by simp
      then have "resolveTask (Some taskId) [] = Inr (None, [])" by (rule resolveTask_empty)
      then show ?thesis
        using Absent True by (simp add: completeTask_def)
    next
      case False
      then show ?thesis
        using Absent resolveTask_fallback [OF wf Absent False] active_wf_last [OF wf False]
        by (simp add: completeTask_def Let_def)
    qed
  qed
qed

theorem completeTask_explicit_id_witness:
  "active_wf (activeTasks exampleEstimatorState) \<and>
   map_option h_taskId
     (fst (projr (completeTask defaultEstimatorConfig 700000 (Some ''task_a'') exampleEstimatorState)))
     = Some ''task_a'' \<and>
   map fst (activeTasks
     (snd (projr (completeTask defaultEstimatorConfig 700000 (Some ''task_a'') exampleEstimatorState))))
     = [''task_b'']"
proof -
  have wf: "active_wf (activeTasks exampleEstimatorState)"
    by (simp add: active_wf_def exampleEstimatorState_def exampleActiveA_def exampleActiveB_def)
  have own: "obj_get (activeTasks exampleEstimatorState) ''task_a'' = Own exampleActiveA"
    by (simp add: obj_get_def exampleEstimatorState_def)
  show ?thesis
    using wf completeTask_explicit_id [OF wf, where taskId = "''task_a''" and cfg = defaultEstimatorConfig and now = 700000]
    unfolding own
    by (auto simp: exampleEstimatorState_def obj_delete_def split: sum.splits)
qed

subsection \<open>The confidence of an estimate\<close>

lemma weight_at_nonneg: "0 \<le> weight_at now d ts"
  by (simp add: weight_at_def)

lemma weight_at_le_one: "0 < d \<Longrightarrow> ts \<le> now \<Longrightarrow> weight_at now d ts \<le> 1"
proof -
  assume d: "0 < d" and past: "ts \<le> now"
  have "0 \<le> (now - ts) / MS_PER_DAY / d" using d past by (simp add: MS_PER_DAY_def)
  then have "- ((now - ts) / MS_PER_DAY) / d \<le> 0" by simp
  then show "weight_at now d ts \<le> 1" by (simp add: weight_at_def)
qed


text \<open>The weight that one step of the loop computes.\<close>

lemma entry_weight:
  assumes d: "0 < d" and past: "ts \<le> now"
  shows "Math_exp (num_div (Fin (- ((now - ts) / MS_PER_DAY))) (Fin d)) = Fin (weight_at now d ts)"
proof -
  define y where "y = (now - ts) / MS_PER_DAY / d"
  have y0: "0 \<le> y" using d past by (simp add: y_def MS_PER_DAY_def)
  have q: "- ((now - ts) / MS_PER_DAY) / d = - y" by (simp add: y_def)
  have div: "num_div (Fin (- ((now - ts) / MS_PER_DAY))) (Fin d) = num_norm (- y)"
    using d q by simp
  have w: "weight_at now d ts = (if 1075 * ln 2 \<le> y then 0 else exp (- y))"
    by (simp add: weight_at_def y_def)
  have big: "\<not> overflow_bound \<le> - y" using y0 overflow_bound_big by linarith
  show ?thesis
  proof (cases "overflow_bound \<le> y")
    case True
    then have "num_norm (- y) = NInf" using big by (simp add: num_norm_def)
    moreover have "1075 * ln 2 \<le> y" using True overflow_bound_big ln2_bounds(2) by linarith
    ultimately show ?thesis using div w by simp
  next
    case False
    then have "num_norm (- y) = Fin (- y)" using big by (simp add: num_norm_def)
    moreover have "\<not> 1024 * ln 2 \<le> - y" using y0 ln2_bounds(1) by linarith
    ultimately show ?thesis using div w by simp
  qed
qed

lemma fold_confidence_step:
  assumes d: "0 < d" and lo: "0 \<le> lo" and hi: "hi \<le> 1"
  shows "(\<And>e. e \<in> set es \<Longrightarrow> h_timestamp e \<le> now \<and> lo \<le> accuracy e \<and> accuracy e \<le> hi) \<Longrightarrow>
     lo * w \<le> a \<Longrightarrow> a \<le> hi * w \<Longrightarrow> 0 \<le> w \<Longrightarrow> w + real (length es) < overflow_bound \<Longrightarrow>
     \<exists>a' w'. fold (confidence_step now d) es (Fin a, Fin w) = (Fin a', Fin w') \<and>
        lo * w' \<le> a' \<and> a' \<le> hi * w' \<and>
        w' = w + sum_list (map (\<lambda>e. weight_at now d (h_timestamp e)) es)"
proof (induction es arbitrary: a w)
  case Nil
  then show ?case by simp
next
  case (Cons e es)
  define wt where "wt = weight_at now d (h_timestamp e)"
  have e: "h_timestamp e \<le> now" "lo \<le> accuracy e" "accuracy e \<le> hi"
    using Cons.prems(1) by auto
  have wt: "0 \<le> wt" "wt \<le> 1"
    using weight_at_nonneg [of now d "h_timestamp e"] weight_at_le_one [OF d e(1)]
    by (simp_all add: wt_def)
  have a0: "0 \<le> a"
    using Cons.prems(2) mult_nonneg_nonneg [OF lo Cons.prems(4)] by linarith
  have aw: "a \<le> w"
    using Cons.prems(3) mult_right_mono [OF hi Cons.prems(4)] by linarith
  have p0: "0 \<le> accuracy e * wt" using e(2) lo wt(1) by simp
  have "accuracy e * wt \<le> 1 * 1"
    using e(3) hi wt e(2) lo by (intro mult_mono) linarith+
  then have p1: "accuracy e * wt \<le> 1" by simp
  have len: "w + 1 + real (length es) < overflow_bound" using Cons.prems(5) by simp
  have n1: "num_norm (accuracy e * wt) = Fin (accuracy e * wt)"
    using p0 p1 overflow_bound_big by (intro num_norm_Fin) linarith
  have n2: "num_norm (a + accuracy e * wt) = Fin (a + accuracy e * wt)"
    using p0 p1 a0 aw len by (intro num_norm_Fin) linarith
  have n3: "num_norm (w + wt) = Fin (w + wt)"
    using wt Cons.prems(4) len by (intro num_norm_Fin) linarith
  have step: "confidence_step now d e (Fin a, Fin w) = (Fin (a + accuracy e * wt), Fin (w + wt))"
    using entry_weight [OF d e(1)] n1 n2 n3 by (simp add: confidence_step_def Let_def wt_def)
  have "lo * wt \<le> accuracy e * wt" using e(2) wt(1) by (simp add: mult_right_mono)
  then have l: "lo * (w + wt) \<le> a + accuracy e * wt"
    using Cons.prems(2) by (simp add: distrib_left)
  have "accuracy e * wt \<le> hi * wt" using e(3) wt(1) by (simp add: mult_right_mono)
  then have h: "a + accuracy e * wt \<le> hi * (w + wt)"
    using Cons.prems(3) by (simp add: distrib_left)
  have w': "0 \<le> w + wt" using Cons.prems(4) wt(1) by simp
  have b': "w + wt + real (length es) < overflow_bound" using len wt(2) by linarith
  have "\<exists>a' w'. fold (confidence_step now d) es (Fin (a + accuracy e * wt), Fin (w + wt)) = (Fin a', Fin w') \<and>
        lo * w' \<le> a' \<and> a' \<le> hi * w' \<and>
        w' = (w + wt) + sum_list (map (\<lambda>e. weight_at now d (h_timestamp e)) es)"
    by (rule Cons.IH [OF _ l h w' b']) (insert Cons.prems(1), auto)
  then show ?case by (simp add: step wt_def add.assoc)
qed

lemma sum_list_weights_pos:
  "0 < sum_list (map (\<lambda>e. weight_at now d (h_timestamp e)) es)
     \<longleftrightarrow> (\<exists>e \<in> set es. 0 < weight_at now d (h_timestamp e))"
proof (induction es)
  case Nil
  then show ?case by simp
next
  case (Cons e es)
  have "0 \<le> sum_list (map (\<lambda>e. weight_at now d (h_timestamp e)) es)"
    by (rule sum_list_nonneg) (auto simp: weight_at_nonneg)
  then show ?case
    using Cons weight_at_nonneg [of now d "h_timestamp e"]
    by (auto simp: add_pos_nonneg add_nonneg_pos)
qed

lemma confidence_value:
  assumes "0 \<le> wa" "wa \<le> 1" "0 \<le> b" "b \<le> 1"
  shows "Math_min (Fin (95 / 100))
           (num_add (num_add (Fin (1 / 2)) (num_mul (Fin wa) (Fin (3 / 10)))) (Fin b))
         = Fin (min (95 / 100) (1 / 2 + wa * (3 / 10) + b))"
proof -
  have n1: "num_norm (wa * (3 / 10)) = Fin (wa * (3 / 10))"
    using assms overflow_bound_big by (intro num_norm_Fin) linarith
  have n2: "num_norm (1 / 2 + wa * (3 / 10)) = Fin (1 / 2 + wa * (3 / 10))"
    using assms overflow_bound_big by (intro num_norm_Fin) linarith
  have n3: "num_norm (1 / 2 + wa * (3 / 10) + b) = Fin (1 / 2 + wa * (3 / 10) + b)"
    using assms overflow_bound_big by (intro num_norm_Fin) linarith
  show ?thesis by (simp only: num_mul.simps num_add.simps Math_min.simps n1 n2 n3)
qed

text \<open>
  With a positive decay period, no relevant entry stamped in the future, relevant
  accuracies between \<open>lo\<close> and \<open>hi\<close> within [0, 1] and at most 1000 entries, the
  confidence is the number \<open>conf_form n m wa\<close>, where the weighted accuracy \<open>wa\<close>
  lies between \<open>lo\<close> and \<open>hi\<close> if some relevant entry has a weight that has not
  underflowed, and is the default 0.5 otherwise.
\<close>

lemma calculateConfidence_form:
  assumes d: "0 < d"
    and h: "\<And>e. e \<in> set h \<Longrightarrow> h_category e = c \<and> h_complexity e = x \<Longrightarrow>
        h_timestamp e \<le> now \<and> lo \<le> accuracy e \<and> accuracy e \<le> hi"
    and lohi: "0 \<le> lo" "lo \<le> hi" "hi \<le> 1"
    and len: "length h \<le> 1000"
  shows "\<exists>wa. calculateConfidence h c x (Some m) (Some d) now
           = Fin (conf_form (length (filter (\<lambda>e. h_category e = c \<and> h_complexity e = x) h)) m wa) \<and>
         (if \<exists>e \<in> set h. (h_category e = c \<and> h_complexity e = x) \<and> 0 < weight_at now d (h_timestamp e)
          then lo \<le> wa \<and> wa \<le> hi else wa = 1 / 2)"
proof -
  let ?P = "\<lambda>e. h_category e = c \<and> h_complexity e = x"
  let ?rel = "filter ?P h"
  let ?alive = "\<exists>e \<in> set h. ?P e \<and> 0 < weight_at now d (h_timestamp e)"
  define wa0 where "wa0 = (if ?alive then lo else 1 / 2)"
  have wa0: "if ?alive then lo \<le> wa0 \<and> wa0 \<le> hi else wa0 = 1 / 2"
    using lohi by (auto simp: wa0_def)
  show ?thesis
  proof (cases "length ?rel = 0 \<or> real (length ?rel) < m")
    case True
    then have "calculateConfidence h c x (Some m) (Some d) now = Fin (conf_form (length ?rel) m wa0)"
      by (auto simp: calculateConfidence_def conf_form_def)
    then show ?thesis using wa0 by blast
  next
    case False
    have n: "real (length ?rel) \<le> 1000"
      using len length_filter_le [of ?P h] by linarith
    have "\<exists>a' w'. fold (confidence_step now d) ?rel (Fin 0, Fin 0) = (Fin a', Fin w') \<and>
        lo * w' \<le> a' \<and> a' \<le> hi * w' \<and>
        w' = 0 + sum_list (map (\<lambda>e. weight_at now d (h_timestamp e)) ?rel)"
      using overflow_bound_big n
      by (intro fold_confidence_step [OF d lohi(1) lohi(3)]) (insert h, auto)
    then obtain a' w' where t: "fold (confidence_step now d) ?rel (Fin 0, Fin 0) = (Fin a', Fin w')"
        "lo * w' \<le> a'" "a' \<le> hi * w'"
        "w' = sum_list (map (\<lambda>e. weight_at now d (h_timestamp e)) ?rel)"
      by auto
    have alive: "0 < w' \<longleftrightarrow> ?alive"
      unfolding t(4) sum_list_weights_pos by auto
    have boost: "0 \<le> min (2 / 10) (real (length ?rel) * (2 / 100))"
        "min (2 / 10) (real (length ?rel) * (2 / 100)) \<le> (1::real)"
      by simp_all
    show ?thesis
    proof (cases "0 < w'")
      case True
      define wa where "wa = a' / w'"
      have r: "lo \<le> wa" "wa \<le> hi"
        using t(2,3) True by (simp_all add: wa_def pos_le_divide_eq pos_divide_le_eq)
      have "\<bar>wa\<bar> < overflow_bound" using r lohi overflow_bound_big by linarith
      then have q: "num_div (Fin a') (Fin w') = Fin wa"
        using True by (simp add: wa_def num_norm_Fin)
      have v: "Math_min (Fin (95 / 100))
           (num_add (num_add (Fin (1 / 2)) (num_mul (Fin wa) (Fin (3 / 10))))
              (Fin (min (2 / 10) (real (length ?rel) * (2 / 100)))))
         = Fin (min (95 / 100) (1 / 2 + wa * (3 / 10) + min (2 / 10) (real (length ?rel) * (2 / 100))))"
        using r lohi by (intro confidence_value boost) linarith+
      have "calculateConfidence h c x (Some m) (Some d) now = Fin (conf_form (length ?rel) m wa)"
        using False True t(1) q v by (simp add: calculateConfidence_def conf_form_def Let_def)
      then show ?thesis using r alive True by auto
    next
      case dead: False
      have v: "Math_min (Fin (95 / 100))
           (num_add (num_add (Fin (1 / 2)) (num_mul (Fin (1 / 2)) (Fin (3 / 10))))
              (Fin (min (2 / 10) (real (length ?rel) * (2 / 100)))))
         = Fin (min (95 / 100) (1 / 2 + (1 / 2) * (3 / 10) + min (2 / 10) (real (length ?rel) * (2 / 100))))"
        by (intro confidence_value boost) simp_all
      have "calculateConfidence h c x (Some m) (Some d) now = Fin (conf_form (length ?rel) m (1 / 2))"
        using False dead t(1) v by (simp add: calculateConfidence_def conf_form_def Let_def)
      then show ?thesis using alive dead by auto
    qed
  qed
qed

lemma ramp_bounds:
  assumes "0 < n" "real n < m"
  shows "3 / 10 < 3 / 10 + (real n / m) * (2 / 10)" "3 / 10 + (real n / m) * (2 / 10) < 1 / 2"
proof -
  have m: "0 < m" using assms by linarith
  have "0 < real n / m" using assms m by simp
  then show "3 / 10 < 3 / 10 + (real n / m) * (2 / 10)" by simp
  have "real n / m < 1" using assms m by simp
  then show "3 / 10 + (real n / m) * (2 / 10) < 1 / 2" by simp
qed

lemma conf_form_upper: "conf_form n m wa \<le> 95 / 100"
proof (cases "n = 0")
  case True
  then show ?thesis by (simp add: conf_form_def)
next
  case False
  show ?thesis
  proof (cases "real n < m")
    case True
    then show ?thesis
      using ramp_bounds(2) [of n m] False by (simp add: conf_form_def)
  next
    case ge: False
    have "min (95 / 100) (1 / 2 + wa * (3 / 10) + min (2 / 10) (real n * (2 / 100))) \<le> 95 / 100"
      by (rule min.cobounded1)
    then show ?thesis using False ge by (simp add: conf_form_def)
  qed
qed

lemma conf_form_lower: "0 \<le> wa \<Longrightarrow> 0 \<le> conf_form n m wa"
proof (cases "n = 0")
  case True
  then show ?thesis by (simp add: conf_form_def)
next
  case False
  assume wa: "0 \<le> wa"
  show ?thesis
  proof (cases "real n < m")
    case True
    then show ?thesis
      using ramp_bounds(1) [of n m] False by (simp add: conf_form_def)
  next
    case ge: False
    have "0 \<le> 1 / 2 + wa * (3 / 10) + min (2 / 10) (real n * (2 / 100))"
      using wa by (simp add: min_def)
    then show ?thesis using False ge by (simp add: conf_form_def)
  qed
qed


lemma confidence_estimate:
  "confidence (estimate cfg now s c x)
     = calculateConfidence (filter (\<lambda>h. h_category h = c \<and> h_complexity h = x) (taskHistory s)) c x
         (Some (minSamplesForEstimate cfg)) (Some (confidenceDecayDays cfg)) now"
  by (simp add: estimate_def Let_def)

lemma calculateConfidence_filter:
  "calculateConfidence (filter (\<lambda>h. h_category h = c \<and> h_complexity h = x) h) c x m d now
     = calculateConfidence h c x m d now"
  by (simp add: calculateConfidence_def)












subsection \<open>The bounds of an estimate\<close>

lemma foldl_plus_sum_list: "foldl (\<lambda>a b. a + b) (a::real) xs = a + sum_list xs"
  by (induction xs arbitrary: a) simp_all

lemma sum_list_pos_real:
  "(\<And>v. v \<in> set xs \<Longrightarrow> 0 \<le> v) \<Longrightarrow> \<exists>v \<in> set xs. 0 < v \<Longrightarrow> 0 < sum_list (xs::real list)"
proof (induction xs)
  case Nil
  then show ?case by simp
next
  case (Cons a xs)
  have nn: "0 \<le> sum_list xs" using Cons.prems(1) by (simp add: sum_list_nonneg)
  show ?case
  proof (cases "0 < a")
    case True
    then show ?thesis using nn by simp
  next
    case False
    then have "\<exists>v \<in> set xs. 0 < v" using Cons.prems(2) by auto
    then have "0 < sum_list xs" using Cons.IH Cons.prems(1) by simp
    moreover have "0 \<le> a" using Cons.prems(1) by simp
    ultimately show ?thesis by simp
  qed
qed

lemma calculateVariance_nonneg:
  assumes "\<And>e. e \<in> set h \<Longrightarrow> 0 \<le> actualMs e"
    and "2 \<le> length h \<longrightarrow> (\<exists>e \<in> set h. 0 < actualMs e)"
  shows "\<exists>v. calculateVariance h = Some v \<and> 0 \<le> v"
proof (cases "length h < 2")
  case True
  then show ?thesis by (intro exI [of _ "1 / 2"]) (simp add: calculateVariance_def)
next
  case False
  then have "\<exists>e \<in> set h. 0 < actualMs e" using assms(2) by simp
  then have "0 < sum_list (map actualMs h)"
    using assms(1) by (intro sum_list_pos_real) auto
  moreover have "0 < real (length h)" using False by (cases h) auto
  ultimately have mean: "0 < foldl (\<lambda>a b. a + b) 0 (map actualMs h) / real (length h)"
    by (simp add: foldl_plus_sum_list)
  define mu where "mu = foldl (\<lambda>a b. a + b) 0 (map actualMs h) / real (length h)"
  define var where
    "var = foldl (\<lambda>a b. a + b) 0 (map (\<lambda>v. (v - mu) ^ 2) (map actualMs h)) / real (length h)"
  have cv: "calculateVariance h = js_div (sqrt var) mu"
    using False by (simp add: calculateVariance_def Let_def mu_def var_def)
  have mu: "0 < mu" using mean by (simp add: mu_def)
  have "0 \<le> sum_list (map (\<lambda>v. (v - mu) ^ 2) (map actualMs h))"
    by (rule sum_list_nonneg) auto
  then have "0 \<le> var"
    by (simp add: var_def foldl_plus_sum_list)
  then have "0 \<le> sqrt var / mu" using mu by simp
  then show ?thesis
    using mu by (simp add: cv js_div_def)
qed

lemma Math_round_mono: "a \<le> b \<Longrightarrow> Math_round a \<le> Math_round b"
  by (simp add: Math_round_def floor_mono)

lemma BASE_DURATION_MS_pos: "0 < BASE_DURATION_MS c"
  by (cases c) (simp_all add: BASE_DURATION_MS_def)

lemma COMPLEXITY_MULTIPLIERS_pos: "0 < COMPLEXITY_MULTIPLIERS x"
  by (cases x) (simp_all add: COMPLEXITY_MULTIPLIERS_def)

lemma getBaseline_nonneg:
  "(\<forall>b. learnedBaselines s (c, x) = Some b \<longrightarrow> 0 \<le> mean b) \<Longrightarrow> 0 \<le> getBaseline s c x"
  using BASE_DURATION_MS_pos [of c] COMPLEXITY_MULTIPLIERS_pos [of x] BASE_DURATION_MS_pos [of other]
  by (auto simp: getBaseline_def Let_def split: option.splits)

text \<open>
  Where the relevant durations are non-negative and, from two entries on, not all zero,
  the relevant accuracies lie in [0, 1] (as \<open>calculateAccuracy\<close> yields them), no
  relevant entry is stamped in the future, the decay period is positive, the history
  holds at most 1000 entries and the learned mean is non-negative, the estimate is
  ordered and its confidence lies in [0, 0.95].
\<close>

lemma estimate_bounds:
  assumes decay: "0 < confidenceDecayDays cfg"
    and dur: "\<forall>e \<in> set (taskHistory s).
        h_category e = c \<and> h_complexity e = x \<longrightarrow>
          0 \<le> actualMs e \<and> 0 \<le> accuracy e \<and> accuracy e \<le> 1 \<and> h_timestamp e \<le> now"
    and pos: "2 \<le> length (filter (\<lambda>h. h_category h = c \<and> h_complexity h = x) (taskHistory s)) \<longrightarrow>
        (\<exists>e \<in> set (taskHistory s). h_category e = c \<and> h_complexity e = x \<and> 0 < actualMs e)"
    and base: "\<forall>b. learnedBaselines s (c, x) = Some b \<longrightarrow> 0 \<le> mean b"
    and len: "length (taskHistory s) \<le> 1000"
  shows "\<exists>mn mx cf. minimumMs (estimate cfg now s c x) = Some mn \<and>
           maximumMs (estimate cfg now s c x) = Some mx \<and>
           confidence (estimate cfg now s c x) = Fin cf \<and>
           mn \<le> expectedMs (estimate cfg now s c x) \<and>
           expectedMs (estimate cfg now s c x) \<le> mx \<and>
           0 \<le> cf \<and> cf \<le> 95 / 100"
proof -
  let ?P = "\<lambda>h. h_category h = c \<and> h_complexity h = x"
  let ?rel = "filter ?P (taskHistory s)"
  let ?b = "getBaseline s c x"
  obtain v where v: "calculateVariance ?rel = Some v" "0 \<le> v"
    using calculateVariance_nonneg [of ?rel] dur pos by auto
  have b: "0 \<le> ?b" by (rule getBaseline_nonneg [OF base])
  have f: "1 \<le> 1 + v" using v by simp
  have hi: "?b \<le> ?b * (1 + v)"
    using mult_left_mono [OF f b] by simp
  have lo: "?b / (1 + v) \<le> ?b"
    using hi f by (simp add: pos_divide_le_eq)
  have mn: "minimumMs (estimate cfg now s c x) = Some (real_of_int (Math_round (?b / (1 + v))))"
    using v by (simp add: estimate_def Let_def js_div_def)
  have mx: "maximumMs (estimate cfg now s c x) = Some (real_of_int (Math_round (?b * (1 + v))))"
    using v by (simp add: estimate_def Let_def)
  have ex: "expectedMs (estimate cfg now s c x) = real_of_int (Math_round ?b)"
    by (simp add: estimate_def Let_def)
  have hyp: "h_timestamp e \<le> now \<and> 0 \<le> accuracy e \<and> accuracy e \<le> 1"
    if "e \<in> set (taskHistory s)" "?P e" for e
    using that dur by blast
  have "\<exists>wa. calculateConfidence (taskHistory s) c x (Some (minSamplesForEstimate cfg))
         (Some (confidenceDecayDays cfg)) now
       = Fin (conf_form (length ?rel) (minSamplesForEstimate cfg) wa) \<and>
      (if \<exists>e \<in> set (taskHistory s). ?P e \<and> 0 < weight_at now (confidenceDecayDays cfg) (h_timestamp e)
       then 0 \<le> wa \<and> wa \<le> 1 else wa = 1 / 2)"
    by (rule calculateConfidence_form [OF decay hyp _ _ _ len]) simp_all
  then obtain wa where wa:
      "calculateConfidence (taskHistory s) c x (Some (minSamplesForEstimate cfg))
         (Some (confidenceDecayDays cfg)) now
       = Fin (conf_form (length ?rel) (minSamplesForEstimate cfg) wa)"
      "if \<exists>e \<in> set (taskHistory s). ?P e \<and> 0 < weight_at now (confidenceDecayDays cfg) (h_timestamp e)
       then 0 \<le> wa \<and> wa \<le> 1 else wa = 1 / 2"
    by blast
  have wa0: "0 \<le> wa"
  proof (cases "\<exists>e \<in> set (taskHistory s). ?P e \<and> 0 < weight_at now (confidenceDecayDays cfg) (h_timestamp e)")
    case True
    then show ?thesis using wa(2) by simp
  next
    case False
    then have "wa = 1 / 2" using wa(2) by simp
    then show ?thesis by simp
  qed
  have cf: "confidence (estimate cfg now s c x)
      = Fin (conf_form (length ?rel) (minSamplesForEstimate cfg) wa)"
    using wa(1) by (simp add: confidence_estimate calculateConfidence_filter)
  show ?thesis
    using Math_round_mono [OF lo] Math_round_mono [OF hi] mn mx ex cf
      conf_form_upper [of "length ?rel" "minSamplesForEstimate cfg" wa]
      conf_form_lower [OF wa0, of "length ?rel" "minSamplesForEstimate cfg"]
    by simp
qed

text \<open>The history after the two instant completions.\<close>

lemma instantCompletions_history:
  "map (\<lambda>h. (h_taskId h, h_category h, h_complexity h, h_estimatedMs h, actualMs h))
     (taskHistory instantCompletions)
   = [(''task_a'', coding, moderate, 600000, 0), (''task_b'', coding, moderate, 600000, 0)]"
  by (simp add: instantCompletions_def initialEstimatorState_def startTask_def completeTask_def
      resolveTask_def obj_get_def OBJECT_PROTOTYPE_KEYS_def obj_delete_def obj_values_def
      pushHistory_def estimate_def getBaseline_def
      BASE_DURATION_MS_def COMPLEXITY_MULTIPLIERS_def Math_round_def bayesianUpdate_def
      defaultEstimatorConfig_def Let_def)

text \<open>
  C6 (the code departs from the claim): two tasks of the pair (coding, moderate) are
  started and each is completed at the very clock reading at which it was started, so
  both history entries have the actual duration 0. \<open>calculateVariance\<close> then divides
  by the mean 0, and the \<open>minimumMs\<close> and \<open>maximumMs\<close> of the next estimate are not
  numbers: the order \<open>minimumMs \<le> expectedMs \<le> maximumMs\<close> does not hold.
\<close>

theorem estimate_zero_durations:
  "map actualMs (taskHistory instantCompletions) = [0, 0] \<and>
   minimumMs (estimate defaultEstimatorConfig 3000 instantCompletions coding moderate) = None \<and>
   maximumMs (estimate defaultEstimatorConfig 3000 instantCompletions coding moderate) = None \<and>
   expectedMs (estimate defaultEstimatorConfig 3000 instantCompletions coding moderate) = 600000"
  by (simp add: instantCompletions_def initialEstimatorState_def startTask_def completeTask_def
      resolveTask_def obj_get_def OBJECT_PROTOTYPE_KEYS_def obj_delete_def obj_values_def
      pushHistory_def estimate_def getBaseline_def
      BASE_DURATION_MS_def COMPLEXITY_MULTIPLIERS_def Math_round_def bayesianUpdate_def
      calculateVariance_def js_div_def defaultEstimatorConfig_def Let_def)

section \<open>Properties of the temporal memory\<close>

subsection \<open>The access bookkeeping of search\<close>

lemma recordAccess_map:
  "recordAccess now rid idx = map (\<lambda>kv. if fst kv = rid then (fst kv, touch now (snd kv)) else kv) idx"
proof (cases "map_of idx rid")
  case None
  then have "\<And>kv. kv \<in> set idx \<Longrightarrow> fst kv \<noteq> rid"
    by (metis map_of_eq_None_iff image_eqI)
  then have "map (\<lambda>kv. if fst kv = rid then (fst kv, touch now (snd kv)) else kv) idx = idx"
    by (simp add: map_idI)
  then show ?thesis using None by (simp add: recordAccess_def)
next
  case (Some e)
  then show ?thesis by (simp add: recordAccess_def touch_def)
qed

lemma fold_recordAccess:
  "distinct rids \<Longrightarrow>
   fold (\<lambda>rid. recordAccess now rid) rids idx
     = map (\<lambda>kv. if fst kv \<in> set rids then (fst kv, touch now (snd kv)) else kv) idx"
proof (induction rids arbitrary: idx)
  case Nil
  then show ?case by simp
next
  case (Cons r rids)
  have "fold (\<lambda>rid. recordAccess now rid) (r # rids) idx
      = map (\<lambda>kv. if fst kv \<in> set rids then (fst kv, touch now (snd kv)) else kv)
          (map (\<lambda>kv. if fst kv = r then (fst kv, touch now (snd kv)) else kv) idx)"
  proof -
    have "distinct rids" using Cons.prems by simp
    then have "fold (\<lambda>rid. recordAccess now rid) rids (recordAccess now r idx)
        = map (\<lambda>kv. if fst kv \<in> set rids then (fst kv, touch now (snd kv)) else kv)
            (recordAccess now r idx)"
      by (rule Cons.IH)
    then show ?thesis by (simp only: fold_simps recordAccess_map [of now r idx])
  qed
  also have "\<dots> = map (\<lambda>kv. if fst kv \<in> set (r # rids) then (fst kv, touch now (snd kv)) else kv) idx"
    using Cons.prems by (auto simp: comp_def)
  finally show ?case .
qed

lemma fold_map_ids:
  "fold (\<lambda>result. recordAccess now (m_id result)) results idx
     = fold (\<lambda>rid. recordAccess now rid) (map m_id results) idx"
  by (simp add: fold_map comp_def)

lemma search_results:
  "fst (search cfg now q opts idx) =
     slice0 (case limit opts of None \<Rightarrow> 10 | Some l \<Rightarrow> l)
       (sort_key (\<lambda>e. - relevanceScore e)
         (filter (\<lambda>e. relevanceScore e \<ge> (case minRelevance opts of None \<Rightarrow> 1 / 10 | Some r \<Rightarrow> r))
           (map (\<lambda>e. e\<lparr>relevanceScore := relevanceOf cfg (tokenize q) e\<rparr>)
             (map (\<lambda>e. e\<lparr>decayScore := exponentialDecay 1 (decayHalfLifeDays cfg * MS_PER_DAY) (now - m_timestamp e)\<rparr>)
               (filter (\<lambda>e. m_timestamp e \<ge> (case maxAgeDays opts of None \<Rightarrow> 0
                     | Some d \<Rightarrow> if d = 0 then 0 else now - d * MS_PER_DAY))
                 (obj_values idx))))))"
  by (simp add: search_def Let_def)

lemma search_index:
  "snd (search cfg now q opts idx) =
     fold (\<lambda>rid. recordAccess now rid) (map m_id (fst (search cfg now q opts idx))) idx"
  by (simp add: search_def Let_def fold_map comp_def)

lemma distinct_map_sort_key:
  "distinct (map f xs) \<Longrightarrow> distinct (map f (sort_key k xs))"
  by (simp add: distinct_map)

lemma distinct_map_slice0: "distinct (map f xs) \<Longrightarrow> distinct (map f (slice0 n xs))"
  by (simp add: slice0_def take_map [symmetric])

lemma set_slice0: "set (slice0 n xs) \<subseteq> set xs"
  by (auto simp: slice0_def dest: in_set_takeD)

lemma index_wf_ids: "index_wf idx \<Longrightarrow> map m_id (obj_values idx) = map fst idx"
  by (simp add: index_wf_def obj_values_def list_all_iff)

lemma search_result_ids:
  assumes "index_wf idx"
  shows "distinct (map m_id (fst (search cfg now q opts idx)))"
    and "m_id ` set (fst (search cfg now q opts idx)) \<subseteq> fst ` set idx"
proof -
  have d: "distinct (map m_id (obj_values idx))"
    using assms by (simp add: index_wf_ids) (simp add: index_wf_def)
  show "distinct (map m_id (fst (search cfg now q opts idx)))"
    unfolding search_results
    by (intro distinct_map_slice0 distinct_map_sort_key distinct_map_filter)
       (simp add: comp_def distinct_map_filter d)
  have "m_id ` set (fst (search cfg now q opts idx)) \<subseteq> m_id ` set (obj_values idx)"
    unfolding search_results using set_slice0 by fastforce
  also have "\<dots> = fst ` set idx"
    using index_wf_ids [OF assms] by (metis set_map)
  finally show "m_id ` set (fst (search cfg now q opts idx)) \<subseteq> fst ` set idx" .
qed

text \<open>The example index and the search for \<open>scheduler\<close> in it, evaluated.\<close>

lemma tokenize_example_deploy: "tokenize ''Deploy the Scheduler-service!'' = [''deploy'', ''the'', ''scheduler'', ''service'']"
  by code_simp

lemma tokenize_example_lunch: "tokenize ''Lunch menu ideas'' = [''lunch'', ''menu'', ''ideas'']"
  by code_simp

lemma tokenize_example_query: "tokenize ''scheduler'' = [''scheduler'']"
  by code_simp

lemma exampleIndex_eq:
  "exampleIndex =
     [(''0b0b'', \<lparr>m_id = ''0b0b'', content = ''Lunch menu ideas'', m_timestamp = 1000, decayScore = 1,
         relevanceScore = 1, accessCount = 0, lastAccessedAt = 1000, temporalContext = None,
         associatedTasks = []\<rparr>),
      (''0a0a'', \<lparr>m_id = ''0a0a'', content = ''Deploy the Scheduler-service!'', m_timestamp = 5000,
         decayScore = 1, relevanceScore = 1, accessCount = 0, lastAccessedAt = 5000,
         temporalContext = None, associatedTasks = []\<rparr>)]"
  by (simp add: exampleIndex_def exampleMemoryCalls_def addEntry_def defaultMemoryConfig_def Let_def)

lemma match_example_deploy: "list_ex (\<lambda>ct. str_includes ct ''scheduler'' \<or> str_includes ''scheduler'' ct)
     [''deploy'', ''the'', ''scheduler'', ''service'']"
  by code_simp

lemma match_example_lunch: "\<not> list_ex (\<lambda>ct. str_includes ct ''scheduler'' \<or> str_includes ''scheduler'' ct)
     [''lunch'', ''menu'', ''ideas'']"
  by code_simp

lemma example_pow: "Math_pow_half (1 / 151200) = (1 / 2) powr (1 / 151200)"
  by (rule Math_pow_half_mid) simp_all

lemma example_decay: "1 / 2 \<le> (1 / 2 :: real) powr (1 / 151200) \<and> (1 / 2 :: real) powr (1 / 151200) \<le> 1"
  using powr_mono' [of "1 / 151200" 1 "1 / 2 :: real"] powr_mono' [of 0 "1 / 151200" "1 / 2 :: real"]
  by simp

lemma example_search_ids:
  "map m_id (fst (search defaultMemoryConfig 9000 ''scheduler'' exampleOptions exampleIndex)) = [''0a0a'']"
  using example_decay
  by (simp add: search_results exampleIndex_eq exampleOptions_def obj_values_def defaultMemoryConfig_def
      relevanceOf_def tokenize_example_deploy tokenize_example_lunch tokenize_example_query match_example_deploy match_example_lunch exponentialDecay_def example_pow MS_PER_DAY_def slice0_def Let_def)

text \<open>
  C7: for every well-formed memory index and every query, \<open>search\<close> changes the index
  in exactly this way: a stored entry whose id is the id of a returned entry has its
  \<open>accessCount\<close> incremented by 1 and its \<open>lastAccessedAt\<close> set to the time of the
  call, and every other stored entry is unchanged, so keeps its \<open>accessCount\<close> and its
  \<open>lastAccessedAt\<close>. Every returned entry is a stored one.
\<close>

theorem search_access_bookkeeping:
  "index_wf idx \<Longrightarrow> decayHalfLifeDays cfg \<noteq> 0 \<Longrightarrow>
   snd (search cfg now q opts idx)
     = map (\<lambda>kv. if fst kv \<in> m_id ` set (fst (search cfg now q opts idx))
                  then (fst kv, (snd kv)\<lparr>accessCount := accessCount (snd kv) + 1,
                                         lastAccessedAt := now\<rparr>)
                  else kv) idx \<and>
   m_id ` set (fst (search cfg now q opts idx)) \<subseteq> fst ` set idx"
  using search_result_ids [of idx cfg now q opts]
  by (simp add: search_index fold_recordAccess touch_def)

theorem search_access_bookkeeping_witness:
  "index_wf exampleIndex \<and> decayHalfLifeDays defaultMemoryConfig \<noteq> 0 \<and>
   map m_id (fst (search defaultMemoryConfig 9000 ''scheduler'' exampleOptions exampleIndex)) = [''0a0a''] \<and>
   map (\<lambda>kv. (fst kv, accessCount (snd kv), lastAccessedAt (snd kv)))
     (snd (search defaultMemoryConfig 9000 ''scheduler'' exampleOptions exampleIndex))
     = [(''0b0b'', 0, 1000), (''0a0a'', 1, 9000)]"
proof -
  have wf: "index_wf exampleIndex"
    by (simp add: index_wf_def exampleIndex_eq)
  have hl: "decayHalfLifeDays defaultMemoryConfig \<noteq> 0"
    by (simp add: defaultMemoryConfig_def)
  have ids: "m_id ` set (fst (search defaultMemoryConfig 9000 ''scheduler'' exampleOptions exampleIndex))
      = {''0a0a''}"
    using arg_cong [OF example_search_ids, of set] by simp
  have eq: "snd (search defaultMemoryConfig 9000 ''scheduler'' exampleOptions exampleIndex)
      = map (\<lambda>kv. if fst kv \<in> {''0a0a''}
                   then (fst kv, (snd kv)\<lparr>accessCount := accessCount (snd kv) + 1,
                                          lastAccessedAt := 9000\<rparr>)
                   else kv) exampleIndex"
    using search_access_bookkeeping [OF wf hl, of 9000 "''scheduler''" exampleOptions]
    unfolding ids by simp
  show ?thesis
    unfolding eq using wf hl example_search_ids by (simp add: exampleIndex_eq)
qed

subsection \<open>What search leaves unchanged\<close>

lemma access_frame_touch: "access_frame e e' \<Longrightarrow> access_frame e (touch now e')"
  by (simp add: access_frame_def touch_def)

lemma fold_recordAccess_frame:
  "list_all2 (\<lambda>kv kv'. fst kv' = fst kv \<and> access_frame (snd kv) (snd kv')) idx idx' \<Longrightarrow>
   list_all2 (\<lambda>kv kv'. fst kv' = fst kv \<and> access_frame (snd kv) (snd kv')) idx
     (fold (\<lambda>rid. recordAccess now rid) rids idx')"
proof (induction rids arbitrary: idx')
  case Nil
  then show ?case by simp
next
  case (Cons r rids)
  have "list_all2 (\<lambda>kv kv'. fst kv' = fst kv \<and> access_frame (snd kv) (snd kv')) idx
      (recordAccess now r idx')"
    unfolding recordAccess_map using Cons.prems
    by (auto simp: list_all2_conv_all_nth access_frame_touch)
  then show ?case using Cons.IH by simp
qed

lemma search_frame_lemma:
  "list_all2 (\<lambda>kv kv'. fst kv' = fst kv \<and> access_frame (snd kv) (snd kv')) idx
     (snd (search cfg now q opts idx))"
  unfolding search_index
  by (rule fold_recordAccess_frame) (simp add: list_all2_conv_all_nth access_frame_def)

lemma search_results_decay:
  "list_all (\<lambda>r. decayScore r
        = exponentialDecay 1 (decayHalfLifeDays cfg * MS_PER_DAY) (now - m_timestamp r))
     (fst (search cfg now q opts idx))"
proof -
  have "\<And>r. r \<in> set (fst (search cfg now q opts idx)) \<Longrightarrow>
      decayScore r = exponentialDecay 1 (decayHalfLifeDays cfg * MS_PER_DAY) (now - m_timestamp r)"
    unfolding search_results using set_slice0 by fastforce
  then show ?thesis by (simp add: list_all_iff)
qed

lemma fresh_decay_obj_set:
  "fresh_decay idx \<Longrightarrow> decayScore e = 1 \<Longrightarrow> fresh_decay (obj_set idx k e)"
  by (induction idx k e rule: obj_set.induct) (auto simp: fresh_decay_def)

lemma fresh_decay_frame:
  "fresh_decay idx \<Longrightarrow>
   list_all2 (\<lambda>kv kv'. fst kv' = fst kv \<and> access_frame (snd kv) (snd kv')) idx idx' \<Longrightarrow>
   fresh_decay idx'"
  by (auto simp: fresh_decay_def list_all2_conv_all_nth list_all_length access_frame_def)

lemma fresh_decay_map:
  "fresh_decay idx \<Longrightarrow> (\<And>e. decayScore (f e) = decayScore e) \<Longrightarrow>
   fresh_decay (map (\<lambda>kv. if fst kv = k then (fst kv, f (snd kv)) else kv) idx)"
  by (auto simp: fresh_decay_def list_all_iff)

lemma fresh_decay_recordAccess: "fresh_decay idx \<Longrightarrow> fresh_decay (recordAccess now rid idx)"
  unfolding recordAccess_map by (rule fresh_decay_map) (simp_all add: touch_def)

lemma fresh_decay_filter: "fresh_decay idx \<Longrightarrow> fresh_decay (filter P idx)"
  by (simp add: fresh_decay_def list_all_iff)

lemma memory_call_fresh: "fresh_decay idx \<Longrightarrow> fresh_decay (memory_call cfg now c idx)"
proof (cases c)
  case (AddEntry newId content' ctx)
  assume "fresh_decay idx"
  then show ?thesis
    using AddEntry by (simp add: addEntry_def Let_def fresh_decay_obj_set)
next
  case (Search query options)
  assume "fresh_decay idx"
  then show ?thesis
    using Search search_frame_lemma [of idx cfg now query options]
    by (simp add: fresh_decay_frame)
next
  case (GetEntry eid)
  assume "fresh_decay idx"
  then show ?thesis
    using GetEntry
    by (simp add: getEntry_def fresh_decay_recordAccess split: option.splits)
next
  case (UpdateEntry eid newContent newTasks)
  assume "fresh_decay idx"
  then show ?thesis
    using UpdateEntry
    by (auto simp: updateEntry_def Let_def fresh_decay_def list_all_iff split: option.splits)
next
  case (AssociateTask memoryId taskId)
  assume "fresh_decay idx"
  then show ?thesis
    using AssociateTask
    by (auto simp: associateTask_def Let_def fresh_decay_def list_all_iff split: option.splits)
next
  case (RemoveEntry eid)
  assume "fresh_decay idx"
  then show ?thesis
    using RemoveEntry
    by (simp add: removeEntry_def obj_delete_def fresh_decay_filter split: option.splits)
next
  case (Prune maxAgeDaysOpt minAccessCountOpt)
  assume "fresh_decay idx"
  then show ?thesis
    using Prune by (simp add: prune_def Let_def fresh_decay_filter)
qed

lemma memory_run_fresh: "fresh_decay idx \<Longrightarrow> fresh_decay (memory_run cfg cs idx)"
  by (induction cs arbitrary: idx) (auto simp: memory_call_fresh)

lemma prune_fresh:
  "fresh_decay idx \<Longrightarrow>
   snd (prune now a m idx)
     = filter (\<lambda>kv. \<not> (m_timestamp (snd kv)
                          < now - (case a of None \<Rightarrow> 90 | Some d \<Rightarrow> d) * MS_PER_DAY \<and>
                        accessCount (snd kv) \<le> (case m of None \<Rightarrow> 0 | Some c \<Rightarrow> c))) idx"
  by (auto simp: prune_def Let_def shouldPrune_def fresh_decay_def list_all_iff intro!: filter_cong)

text \<open>
  C9: \<open>search\<close> keeps the keys of the index and changes no field of a stored entry
  but \<open>accessCount\<close> and \<open>lastAccessedAt\<close>; the recomputed decay score is on the
  returned copies only. \<open>addEntry\<close> stores the decay score 1.0, and after any sequence
  of calls of the memory manager on the empty index every stored decay score is still
  1.0, so the criterion \<open>decayScore < 0.1\<close> of \<open>prune\<close> compares against 1.0 and
  never holds: \<open>prune\<close> removes exactly the entries older than the cutoff whose
  access count is at most the threshold.
\<close>

theorem search_frame:
  "list_all2 (\<lambda>kv kv'. fst kv' = fst kv \<and> access_frame (snd kv) (snd kv')) idx
     (snd (search cfg now q opts idx)) \<and>
   list_all (\<lambda>r. decayScore r
        = exponentialDecay 1 (decayHalfLifeDays cfg * MS_PER_DAY) (now - m_timestamp r))
     (fst (search cfg now q opts idx)) \<and>
   decayScore (fst (addEntry cfg2 t newId text' ctx idx2)) = 1 \<and>
   list_all (\<lambda>kv. decayScore (snd kv) = 1) (memory_run cfg3 calls []) \<and>
   snd (prune t' a m (memory_run cfg3 calls []))
     = filter (\<lambda>kv. \<not> (m_timestamp (snd kv)
                          < t' - (case a of None \<Rightarrow> 90 | Some d \<Rightarrow> d) * MS_PER_DAY \<and>
                        accessCount (snd kv) \<le> (case m of None \<Rightarrow> 0 | Some c \<Rightarrow> c)))
         (memory_run cfg3 calls [])"
  using search_frame_lemma [of idx cfg now q opts] search_results_decay [of cfg now q opts idx]
    memory_run_fresh [of "[]" cfg3 calls] prune_fresh [of "memory_run cfg3 calls []" t' a m]
  by (simp add: addEntry_def Let_def fresh_decay_def)

theorem search_frame_witness:
  "map (\<lambda>kv. (fst kv, content (snd kv), decayScore (snd kv)))
     (snd (search defaultMemoryConfig 9000 ''scheduler'' exampleOptions exampleIndex))
     = [(''0b0b'', ''Lunch menu ideas'', 1), (''0a0a'', ''Deploy the Scheduler-service!'', 1)] \<and>
   map decayScore (fst (search defaultMemoryConfig 9000 ''scheduler'' exampleOptions exampleIndex))
     = [exponentialDecay 1 (7 * MS_PER_DAY) 4000]"
proof -
  have res: "map decayScore (fst (search defaultMemoryConfig 9000 ''scheduler'' exampleOptions exampleIndex))
     = [exponentialDecay 1 (7 * MS_PER_DAY) 4000]"
    using example_decay
    by (simp add: search_results exampleIndex_eq exampleOptions_def obj_values_def defaultMemoryConfig_def
      relevanceOf_def tokenize_example_deploy tokenize_example_lunch tokenize_example_query match_example_deploy match_example_lunch exponentialDecay_def example_pow MS_PER_DAY_def slice0_def Let_def)
  have "list_all2 (\<lambda>kv kv'. fst kv' = fst kv \<and> access_frame (snd kv) (snd kv')) exampleIndex
     (snd (search defaultMemoryConfig 9000 ''scheduler'' exampleOptions exampleIndex))"
    by (rule search_frame [of exampleIndex defaultMemoryConfig 9000 "''scheduler''" exampleOptions,
          THEN conjunct1])
  then have "map (\<lambda>kv. (fst kv, content (snd kv), decayScore (snd kv)))
       (snd (search defaultMemoryConfig 9000 ''scheduler'' exampleOptions exampleIndex))
     = map (\<lambda>kv. (fst kv, content (snd kv), decayScore (snd kv))) exampleIndex"
    by (auto simp: list_all2_conv_all_nth access_frame_def intro!: nth_equalityI)
  then show ?thesis
    using res by (simp add: exampleIndex_eq)
qed

section \<open>Invariants of the stored state\<close>

text \<open>
  The well-formedness that the theorems above assume is kept by every operation: an
  index built by calls of the memory manager from the empty index is well-formed, and
  so are the active tasks built by \<open>startTask\<close> and \<open>completeTask\<close>.
\<close>

lemma fst_set_obj_set: "fst ` set (obj_set kvs k v) = insert k (fst ` set kvs)"
  by (induction kvs k v rule: obj_set.induct) auto

lemma distinct_obj_set: "distinct (map fst kvs) \<Longrightarrow> distinct (map fst (obj_set kvs k v))"
proof (induction kvs k v rule: obj_set.induct)
  case (1 k v)
  then show ?case by simp
next
  case (2 k' v' kvs k v)
  then show ?case
    using fst_set_obj_set [of kvs k v] by (auto simp: image_iff)
qed

lemma list_all_obj_set: "list_all Q kvs \<Longrightarrow> Q (k, v) \<Longrightarrow> list_all Q (obj_set kvs k v)"
  by (induction kvs k v rule: obj_set.induct) auto

lemma index_wf_map:
  "index_wf idx \<Longrightarrow> (\<And>e. m_id (f e) = m_id e) \<Longrightarrow>
   index_wf (map (\<lambda>kv. if P kv then (fst kv, f (snd kv)) else kv) idx)"
proof -
  assume wf: "index_wf idx" and f: "\<And>e. m_id (f e) = m_id e"
  let ?g = "\<lambda>kv. if P kv then (fst kv, f (snd kv)) else kv"
  have k: "map fst (map ?g idx) = map fst idx"
    by (induction idx) auto
  have d: "distinct (map fst (map ?g idx))"
    unfolding k using wf by (simp add: index_wf_def)
  have a: "list_all (\<lambda>kv. m_id (snd kv) = fst kv) (map ?g idx)"
    using wf f by (auto simp: index_wf_def list_all_iff)
  show ?thesis
    unfolding index_wf_def using d a by blast
qed

lemma index_wf_filter: "index_wf idx \<Longrightarrow> index_wf (filter P idx)"
  by (simp add: index_wf_def list_all_iff distinct_map_filter)

lemma index_wf_recordAccess: "index_wf idx \<Longrightarrow> index_wf (recordAccess now rid idx)"
  unfolding recordAccess_map by (rule index_wf_map) (simp_all add: touch_def)

lemma index_wf_search: "index_wf idx \<Longrightarrow> index_wf (snd (search cfg now q opts idx))"
proof -
  assume wf: "index_wf idx"
  have "index_wf (fold (\<lambda>rid. recordAccess now rid) rids idx)" for rids
    using wf by (induction rids arbitrary: idx) (simp_all add: index_wf_recordAccess)
  then show ?thesis by (simp add: search_index)
qed

lemma memory_call_index_wf: "index_wf idx \<Longrightarrow> index_wf (memory_call cfg now c idx)"
proof (cases c)
  case (AddEntry newId content' ctx)
  assume "index_wf idx"
  then show ?thesis
    using AddEntry
    by (simp add: addEntry_def Let_def index_wf_def distinct_obj_set list_all_obj_set)
next
  case (Search query options)
  assume "index_wf idx"
  then show ?thesis using Search by (simp add: index_wf_search)
next
  case (GetEntry eid)
  assume "index_wf idx"
  then show ?thesis
    using GetEntry by (simp add: getEntry_def index_wf_recordAccess split: option.splits)
next
  case (UpdateEntry eid newContent newTasks)
  assume wf: "index_wf idx"
  have "index_wf (map (\<lambda>kv. if fst kv = eid
        then (fst kv, (\<lambda>e. e\<lparr>content := (case newContent of None \<Rightarrow> content e | Some c \<Rightarrow> c),
                 associatedTasks := (case newTasks of None \<Rightarrow> associatedTasks e | Some ts \<Rightarrow> ts)\<rparr>)
               (snd kv))
        else kv) idx)"
    by (rule index_wf_map [OF wf]) simp
  then show ?thesis
    using UpdateEntry wf by (simp add: updateEntry_def Let_def split: option.splits)
next
  case (AssociateTask memoryId taskId)
  assume wf: "index_wf idx"
  have "index_wf (map (\<lambda>kv. if fst kv = memoryId
        then (fst kv, (\<lambda>e. if taskId \<in> set (associatedTasks e) then e
                 else e\<lparr>associatedTasks := associatedTasks e @ [taskId]\<rparr>) (snd kv))
        else kv) idx)"
    by (rule index_wf_map [OF wf]) simp
  then show ?thesis
    using AssociateTask wf by (simp add: associateTask_def Let_def split: option.splits)
next
  case (RemoveEntry eid)
  assume "index_wf idx"
  then show ?thesis
    using RemoveEntry by (simp add: removeEntry_def obj_delete_def index_wf_filter split: option.splits)
next
  case (Prune maxAgeDaysOpt minAccessCountOpt)
  assume "index_wf idx"
  then show ?thesis using Prune by (simp add: prune_def Let_def index_wf_filter)
qed

lemma memory_run_index_wf: "index_wf idx \<Longrightarrow> index_wf (memory_run cfg cs idx)"
  by (induction cs arbitrary: idx) (auto simp: memory_call_index_wf)

lemma active_wf_startTask:
  "active_wf (activeTasks s) \<Longrightarrow> newId \<noteq> [] \<Longrightarrow>
   active_wf (activeTasks (snd (startTask cfg now newId c x s)))"
  by (simp add: startTask_def Let_def active_wf_def distinct_obj_set list_all_obj_set)

lemma active_wf_resolveTask:
  "active_wf active \<Longrightarrow> resolveTask tid active = Inr (found, remaining) \<Longrightarrow> active_wf remaining"
  by (auto simp: resolveTask_def obj_delete_def active_wf_def list_all_iff distinct_map_filter Let_def
      split: option.splits list.splits if_splits Lookup.splits)

lemma active_wf_completeTask:
  "active_wf (activeTasks s) \<Longrightarrow> completeTask cfg now tid s = Inr (entry, s') \<Longrightarrow>
   active_wf (activeTasks s')"
  using active_wf_resolveTask [of "activeTasks s" tid]
  by (auto simp: completeTask_def Let_def split: sum.splits prod.splits option.splits)

text \<open>
  With a learning rate in (0, 1], a clock that does not run backwards and non-negative
  estimates, the learned means stay non-negative.
\<close>

lemma bayesianUpdate_nonneg:
  assumes "0 \<le> pm" "0 \<le> obs" "0 \<le> pc" "0 < r" "r \<le> 1"
  shows "0 \<le> mean (bayesianUpdate pm pc obs r) \<and> 0 \<le> b_confidence (bayesianUpdate pm pc obs r)"
proof -
  have w: "0 \<le> pc * (1 - r)" using assms by simp
  have num: "0 \<le> pm * (pc * (1 - r)) + obs * r" using assms w by simp
  have den: "0 < pc * (1 - r) + r" using assms w by linarith
  have "0 \<le> (pm * (pc * (1 - r)) + obs * r) / (pc * (1 - r) + r)"
    using num den by simp
  moreover have "0 \<le> min (95 / 100) (pc + r * (1 / 10))" using assms by simp
  ultimately show ?thesis by (simp add: bayesianUpdate_def Let_def)
qed

lemma resolveTask_member:
  assumes "resolveTask tid active = Inr (Some task, remaining)"
  shows "task \<in> snd ` set active"
proof -
  have recent: "task \<in> snd ` set active"
    if "(case obj_values active of
           [] \<Rightarrow> Inr (None, active)
         | v # vs \<Rightarrow> let task = last (v # vs) in Inr (Some task, obj_delete active (a_taskId task)))
        = (Inr (Some task, remaining) :: NotATask + (ActiveTask option \<times> (string \<times> ActiveTask) list))"
  proof (cases active)
    case Nil
    then show ?thesis using that by (simp add: obj_values_def)
  next
    case (Cons kv kvs)
    then have "task = last (map snd active)"
      using that by (simp add: obj_values_def Let_def)
    moreover have "map snd active \<noteq> []" using Cons by simp
    ultimately have "task \<in> set (map snd active)" using last_in_set by blast
    then show ?thesis by simp
  qed
  show ?thesis
  proof (cases tid)
    case None
    then show ?thesis using assms recent by (simp add: resolveTask_def Let_def)
  next
    case (Some k)
    show ?thesis
    proof (cases "k = []")
      case True
      then show ?thesis using assms recent Some by (simp add: resolveTask_def Let_def)
    next
      case False
      show ?thesis
      proof (cases "obj_get active k")
        case (Own t)
        then have "map_of active k = Some t"
          by (auto simp: obj_get_def split: option.splits if_splits)
        moreover have "task = t"
          using assms Some False Own by (simp add: resolveTask_def Let_def)
        ultimately show ?thesis
          using map_of_SomeD [of active k t] by (force simp: image_iff)
      next
        case Inherited
        then show ?thesis using assms Some False by (simp add: resolveTask_def Let_def)
      next
        case Absent
        then show ?thesis using assms recent Some False by (simp add: resolveTask_def Let_def)
      qed
    qed
  qed
qed

lemma completeTask_baselines_nonneg:
  assumes rate: "0 < learningRate cfg" "learningRate cfg \<le> 1"
    and inv: "\<forall>k b. learnedBaselines s k = Some b \<longrightarrow> 0 \<le> mean b \<and> 0 \<le> b_confidence b"
    and act: "\<forall>kv \<in> set (activeTasks s). startTime (snd kv) \<le> now \<and> 0 \<le> a_estimatedMs (snd kv)"
    and step: "completeTask cfg now tid s = Inr (entry, s')"
  shows "\<forall>k b. learnedBaselines s' k = Some b \<longrightarrow> 0 \<le> mean b \<and> 0 \<le> b_confidence b"
proof (cases "resolveTask tid (activeTasks s)")
  case (Inl member)
  then show ?thesis using step by (simp add: completeTask_def)
next
  case (Inr r)
  obtain found remaining where r: "r = (found, remaining)" by (cases r)
  show ?thesis
  proof (cases found)
    case None
    then show ?thesis using Inr r inv step by (auto simp: completeTask_def)
  next
    case (Some task)
    have "task \<in> snd ` set (activeTasks s)"
      using Inr r Some by (intro resolveTask_member [of tid "activeTasks s" task remaining]) simp
    then have t: "startTime task \<le> now" "0 \<le> a_estimatedMs task" using act by auto
    define existing where "existing = (case learnedBaselines s (a_category task, a_complexity task) of
        Some b \<Rightarrow> b | None \<Rightarrow> \<lparr>mean = a_estimatedMs task, b_confidence = 3 / 10\<rparr>)"
    have ex: "0 \<le> mean existing \<and> 0 \<le> b_confidence existing"
      using inv t by (auto simp: existing_def split: option.splits)
    have up: "0 \<le> mean (bayesianUpdate (mean existing) (b_confidence existing) (now - startTime task) (learningRate cfg)) \<and>
        0 \<le> b_confidence (bayesianUpdate (mean existing) (b_confidence existing) (now - startTime task) (learningRate cfg))"
      using ex t rate by (intro bayesianUpdate_nonneg) auto
    show ?thesis
      using Inr r Some inv up step
      by (auto simp: completeTask_def Let_def existing_def split: if_splits)
  qed
qed

end
